theory Spec2Isabelle
  imports Main "HOL-Library.Word" "HOL-Library.Sublist"
begin

unbundle bit_operations_syntax

section \<open>Scalars, strings and error codes\<close>

text \<open>
  Bytes are 8-bit words, \<open>uint16_t\<close>, \<open>uint32_t\<close> and \<open>uint64_t\<close> are words of their
  width. \<open>unsigned int\<close> is taken as 32 bits wide, as the device-info fields are documented;
  nothing below depends on it being wider than 16 bits. Sizes and loop counters
  (\<open>size_t\<close>, \<open>int\<close>) are natural numbers: the theorems that depend on them bound the
  buffer length so that every counter stays inside a 24-bit \<open>int\<close>.
  A C string is the list of its characters before the terminating NUL; a pointer that may
  be NULL is an \<open>option\<close>.
\<close>

type_synonym byte = "8 word"
type_synonym uint = "32 word"
type_synonym usb_device_t = nat

text \<open>\<open>irecovery_error_t\<close> (irecovery.h). The transfer primitives return byte counts through
  the same \<open>int\<close>, so the codes stay integers.\<close>

abbreviation (input) IRECOVERY_E_SUCCESS :: int where "IRECOVERY_E_SUCCESS \<equiv> 0"
abbreviation (input) IRECOVERY_E_BAD_PTR :: int where "IRECOVERY_E_BAD_PTR \<equiv> - 1"
abbreviation (input) IRECOVERY_E_CLIENT_ALREADY_ACTIVE :: int where "IRECOVERY_E_CLIENT_ALREADY_ACTIVE \<equiv> - 2"
abbreviation (input) IRECOVERY_E_NO_MEMORY :: int where "IRECOVERY_E_NO_MEMORY \<equiv> - 3"
abbreviation (input) IRECOVERY_E_USB_INIT_FAILED :: int where "IRECOVERY_E_USB_INIT_FAILED \<equiv> - 4"
abbreviation (input) IRECOVERY_E_NO_DEVICE :: int where "IRECOVERY_E_NO_DEVICE \<equiv> - 5"
abbreviation (input) IRECOVERY_E_DST_BUF_SIZE_ZERO :: int where "IRECOVERY_E_DST_BUF_SIZE_ZERO \<equiv> - 6"
abbreviation (input) IRECOVERY_E_DESCRIPTOR_FETCH_FAILED :: int where "IRECOVERY_E_DESCRIPTOR_FETCH_FAILED \<equiv> - 7"
abbreviation (input) IRECOVERY_E_ECID_MISMATCH :: int where "IRECOVERY_E_ECID_MISMATCH \<equiv> - 8"
abbreviation (input) IRECOVERY_E_DESCRIPTOR_SET_FAILED :: int where "IRECOVERY_E_DESCRIPTOR_SET_FAILED \<equiv> - 9"
abbreviation (input) IRECOVERY_E_FINALIZATION_BLOCKED :: int where "IRECOVERY_E_FINALIZATION_BLOCKED \<equiv> - 11"
abbreviation (input) IRECOVERY_E_USB_UPLOAD_FAILED :: int where "IRECOVERY_E_USB_UPLOAD_FAILED \<equiv> - 12"
abbreviation (input) IRECOVERY_E_INVALID_USB_STATUS :: int where "IRECOVERY_E_INVALID_USB_STATUS \<equiv> - 13"
abbreviation (input) IRECOVERY_E_COMMAND_TOO_LONG :: int where "IRECOVERY_E_COMMAND_TOO_LONG \<equiv> - 14"
abbreviation (input) IRECOVERY_E_NO_COMMAND :: int where "IRECOVERY_E_NO_COMMAND \<equiv> - 15"
abbreviation (input) IRECOVERY_E_SERVICE_NOT_AVAILABLE :: int where "IRECOVERY_E_SERVICE_NOT_AVAILABLE \<equiv> - 16"

text \<open>\<open>enum irecovery_mode\<close> and the send options (irecovery.h).\<close>

abbreviation (input) IRECOVERY_K_RECOVERY_MODE_1 :: uint where "IRECOVERY_K_RECOVERY_MODE_1 \<equiv> 0x1280"
abbreviation (input) IRECOVERY_K_RECOVERY_MODE_2 :: uint where "IRECOVERY_K_RECOVERY_MODE_2 \<equiv> 0x1281"
abbreviation (input) IRECOVERY_K_RECOVERY_MODE_3 :: uint where "IRECOVERY_K_RECOVERY_MODE_3 \<equiv> 0x1282"
abbreviation (input) IRECOVERY_K_RECOVERY_MODE_4 :: uint where "IRECOVERY_K_RECOVERY_MODE_4 \<equiv> 0x1283"
abbreviation (input) IRECOVERY_K_WTF_MODE :: uint where "IRECOVERY_K_WTF_MODE \<equiv> 0x1222"
abbreviation (input) IRECOVERY_K_DFU_MODE :: uint where "IRECOVERY_K_DFU_MODE \<equiv> 0x1227"

abbreviation (input) IRECOVERY_SEND_OPT_DFU_NOTIFY_FINISH :: uint where "IRECOVERY_SEND_OPT_DFU_NOTIFY_FINISH \<equiv> 1"
abbreviation (input) IRECOVERY_SEND_OPT_DFU_FORCE_ZLP :: uint where "IRECOVERY_SEND_OPT_DFU_FORCE_ZLP \<equiv> 2"

abbreviation (input) APPLE_VENDOR_ID :: "16 word" where "APPLE_VENDOR_ID \<equiv> 0x05AC"

section \<open>CRC-32 of the DFU trailer\<close>

text \<open>The array \<open>crc32_lookup_t1\<close> of irecovery.c, entry by entry.\<close>

definition crc32_lookup_t1 :: "32 word list" where
  "crc32_lookup_t1 = [
    0x00000000, 0x77073096, 0xEE0E612C, 0x990951BA,
    0x076DC419, 0x706AF48F, 0xE963A535, 0x9E6495A3,
    0x0EDB8832, 0x79DCB8A4, 0xE0D5E91E, 0x97D2D988,
    0x09B64C2B, 0x7EB17CBD, 0xE7B82D07, 0x90BF1D91,
    0x1DB71064, 0x6AB020F2, 0xF3B97148, 0x84BE41DE,
    0x1ADAD47D, 0x6DDDE4EB, 0xF4D4B551, 0x83D385C7,
    0x136C9856, 0x646BA8C0, 0xFD62F97A, 0x8A65C9EC,
    0x14015C4F, 0x63066CD9, 0xFA0F3D63, 0x8D080DF5,
    0x3B6E20C8, 0x4C69105E, 0xD56041E4, 0xA2677172,
    0x3C03E4D1, 0x4B04D447, 0xD20D85FD, 0xA50AB56B,
    0x35B5A8FA, 0x42B2986C, 0xDBBBC9D6, 0xACBCF940,
    0x32D86CE3, 0x45DF5C75, 0xDCD60DCF, 0xABD13D59,
    0x26D930AC, 0x51DE003A, 0xC8D75180, 0xBFD06116,
    0x21B4F4B5, 0x56B3C423, 0xCFBA9599, 0xB8BDA50F,
    0x2802B89E, 0x5F058808, 0xC60CD9B2, 0xB10BE924,
    0x2F6F7C87, 0x58684C11, 0xC1611DAB, 0xB6662D3D,
    0x76DC4190, 0x01DB7106, 0x98D220BC, 0xEFD5102A,
    0x71B18589, 0x06B6B51F, 0x9FBFE4A5, 0xE8B8D433,
    0x7807C9A2, 0x0F00F934, 0x9609A88E, 0xE10E9818,
    0x7F6A0DBB, 0x086D3D2D, 0x91646C97, 0xE6635C01,
    0x6B6B51F4, 0x1C6C6162, 0x856530D8, 0xF262004E,
    0x6C0695ED, 0x1B01A57B, 0x8208F4C1, 0xF50FC457,
    0x65B0D9C6, 0x12B7E950, 0x8BBEB8EA, 0xFCB9887C,
    0x62DD1DDF, 0x15DA2D49, 0x8CD37CF3, 0xFBD44C65,
    0x4DB26158, 0x3AB551CE, 0xA3BC0074, 0xD4BB30E2,
    0x4ADFA541, 0x3DD895D7, 0xA4D1C46D, 0xD3D6F4FB,
    0x4369E96A, 0x346ED9FC, 0xAD678846, 0xDA60B8D0,
    0x44042D73, 0x33031DE5, 0xAA0A4C5F, 0xDD0D7CC9,
    0x5005713C, 0x270241AA, 0xBE0B1010, 0xC90C2086,
    0x5768B525, 0x206F85B3, 0xB966D409, 0xCE61E49F,
    0x5EDEF90E, 0x29D9C998, 0xB0D09822, 0xC7D7A8B4,
    0x59B33D17, 0x2EB40D81, 0xB7BD5C3B, 0xC0BA6CAD,
    0xEDB88320, 0x9ABFB3B6, 0x03B6E20C, 0x74B1D29A,
    0xEAD54739, 0x9DD277AF, 0x04DB2615, 0x73DC1683,
    0xE3630B12, 0x94643B84, 0x0D6D6A3E, 0x7A6A5AA8,
    0xE40ECF0B, 0x9309FF9D, 0x0A00AE27, 0x7D079EB1,
    0xF00F9344, 0x8708A3D2, 0x1E01F268, 0x6906C2FE,
    0xF762575D, 0x806567CB, 0x196C3671, 0x6E6B06E7,
    0xFED41B76, 0x89D32BE0, 0x10DA7A5A, 0x67DD4ACC,
    0xF9B9DF6F, 0x8EBEEFF9, 0x17B7BE43, 0x60B08ED5,
    0xD6D6A3E8, 0xA1D1937E, 0x38D8C2C4, 0x4FDFF252,
    0xD1BB67F1, 0xA6BC5767, 0x3FB506DD, 0x48B2364B,
    0xD80D2BDA, 0xAF0A1B4C, 0x36034AF6, 0x41047A60,
    0xDF60EFC3, 0xA867DF55, 0x316E8EEF, 0x4669BE79,
    0xCB61B38C, 0xBC66831A, 0x256FD2A0, 0x5268E236,
    0xCC0C7795, 0xBB0B4703, 0x220216B9, 0x5505262F,
    0xC5BA3BBE, 0xB2BD0B28, 0x2BB45A92, 0x5CB36A04,
    0xC2D7FFA7, 0xB5D0CF31, 0x2CD99E8B, 0x5BDEAE1D,
    0x9B64C2B0, 0xEC63F226, 0x756AA39C, 0x026D930A,
    0x9C0906A9, 0xEB0E363F, 0x72076785, 0x05005713,
    0x95BF4A82, 0xE2B87A14, 0x7BB12BAE, 0x0CB61B38,
    0x92D28E9B, 0xE5D5BE0D, 0x7CDCEFB7, 0x0BDBDF21,
    0x86D3D2D4, 0xF1D4E242, 0x68DDB3F8, 0x1FDA836E,
    0x81BE16CD, 0xF6B9265B, 0x6FB077E1, 0x18B74777,
    0x88085AE6, 0xFF0F6A70, 0x66063BCA, 0x11010B5C,
    0x8F659EFF, 0xF862AE69, 0x616BFFD3, 0x166CCF45,
    0xA00AE278, 0xD70DD2EE, 0x4E048354, 0x3903B3C2,
    0xA7672661, 0xD06016F7, 0x4969474D, 0x3E6E77DB,
    0xAED16A4A, 0xD9D65ADC, 0x40DF0B66, 0x37D83BF0,
    0xA9BCAE53, 0xDEBB9EC5, 0x47B2CF7F, 0x30B5FFE9,
    0xBDBDF21C, 0xCABAC28A, 0x53B39330, 0x24B4A3A6,
    0xBAD03605, 0xCDD70693, 0x54DE5729, 0x23D967BF,
    0xB3667A2E, 0xC4614AB8, 0x5D681B02, 0x2A6F2B94,
    0xB40BBE37, 0xC30C8EA1, 0x5A05DF1B, 0x2D02EF8D
  ]"

text \<open>The macro \<open>crc32_step(a,b)\<close>:
  \<open>a = (crc32_lookup_t1[(a & 0xFF) ^ ((unsigned char)b)] ^ (a >> 8))\<close>.\<close>

definition crc32_step :: "byte \<Rightarrow> 32 word \<Rightarrow> 32 word" where
  "crc32_step b a = (crc32_lookup_t1 ! unat ((a AND 0xFF) XOR ucast b)) XOR drop_bit 8 a"

text \<open>The twelve bytes \<open>dfu_xbuf\<close> of \<open>irecovery_send_buffer\<close>.\<close>

definition dfu_xbuf :: "byte list" where
  "dfu_xbuf = [0xff, 0xff, 0xff, 0xff, 0xac, 0x05, 0x00, 0x01, 0x55, 0x46, 0x44, 0x10]"

text \<open>The four bytes written behind \<open>dfu_xbuf\<close>:
  \<open>h1 & 0xFF\<close>, \<open>(h1 >> 8) & 0xFF\<close>, \<open>(h1 >> 16) & 0xFF\<close>, \<open>(h1 >> 24) & 0xFF\<close>.\<close>

definition crc_bytes :: "32 word \<Rightarrow> byte list" where
  "crc_bytes h1 = [ucast (h1 AND 0xFF), ucast (drop_bit 8 h1 AND 0xFF),
                   ucast (drop_bit 16 h1 AND 0xFF), ucast (drop_bit 24 h1 AND 0xFF)]"

subsection \<open>The reference CRC of the specification\<close>

text \<open>
  The bitwise reflected CRC-32 that the specification names: for each byte, XOR it into the
  low byte of the register, then shift right eight times, XORing the reversed polynomial
  in whenever a one is shifted out. Initial value \<open>0xFFFFFFFF\<close>, no final XOR.
  This definition follows the specification, not the source; it is what the table-driven
  step is compared with.
\<close>

definition crc_shift :: "32 word \<Rightarrow> 32 word \<Rightarrow> 32 word" where
  "crc_shift poly x = drop_bit 1 x XOR (if bit x 0 then poly else 0)"

definition crc_ref_byte :: "32 word \<Rightarrow> byte \<Rightarrow> 32 word \<Rightarrow> 32 word" where
  "crc_ref_byte poly b a = (crc_shift poly ^^ 8) (a XOR ucast b)"

definition crc32_ref :: "32 word \<Rightarrow> byte list \<Rightarrow> 32 word" where
  "crc32_ref poly bs = fold (crc_ref_byte poly) bs 0xFFFFFFFF"


section \<open>Client, device information and the USB backend\<close>

text \<open>\<open>struct irecovery_device_info\<close> (irecovery.h). A \<open>char*\<close> or \<open>unsigned char*\<close> field is
  \<open>None\<close> while it is NULL and holds the owned string or bytes otherwise.\<close>

record irecovery_device_info =
  cpid :: uint
  cprv :: uint
  cpfm :: uint
  scep :: uint
  bdid :: uint
  ecid :: "64 word"
  ibfl :: uint
  srnm :: "string option"
  imei :: "string option"
  srtg :: "string option"
  serial_string :: "string option"
  pwnd :: "string option"
  ap_nonce :: "byte list option"
  ap_nonce_size :: uint
  sep_nonce :: "byte list option"
  sep_nonce_size :: uint
  pid :: "16 word"

text \<open>What \<open>memset(&client->device_info, 0, ...)\<close> leaves.\<close>

definition zero_device_info :: irecovery_device_info where
  "zero_device_info = \<lparr>cpid = 0, cprv = 0, cpfm = 0, scep = 0, bdid = 0, ecid = 0, ibfl = 0,
     srnm = None, imei = None, srtg = None, serial_string = None, pwnd = None,
     ap_nonce = None, ap_nonce_size = 0, sep_nonce = None, sep_nonce_size = 0, pid = 0\<rparr>"

text \<open>
  \<open>usb_device_descriptor_t\<close> comes from usbdrvce.h, which is not part of the sources. It is
  the 18-byte device descriptor of the USB standard and is kept as those 18 bytes; the three
  fields the source reads sit at the standard's offsets (little-endian).
\<close>

type_synonym usb_device_descriptor_t = "byte list"

definition zero_descriptor :: usb_device_descriptor_t where
  "zero_descriptor = replicate 18 0"

definition le16 :: "byte \<Rightarrow> byte \<Rightarrow> 16 word" where
  "le16 lo hi = ucast lo OR push_bit 8 (ucast hi)"

definition idVendor :: "usb_device_descriptor_t \<Rightarrow> 16 word" where
  "idVendor d = le16 (d ! 8) (d ! 9)"

definition idProduct :: "usb_device_descriptor_t \<Rightarrow> 16 word" where
  "idProduct d = le16 (d ! 10) (d ! 11)"

definition iSerialNumber :: "usb_device_descriptor_t \<Rightarrow> byte" where
  "iSerialNumber d = d ! 16"

datatype irecovery_connection_policy_t =
    IRECOVERY_CLIENT_DEVICE_POLICY_ACCEPT_ALL
  | IRECOVERY_CLIENT_DEVICE_POLICY_ACCEPT_ONLY_WHEN_NO_CURRENT_CONNECTION
  | IRECOVERY_CLIENT_DEVICE_POLICY_ONE_CONNECTION_LIMIT

text \<open>\<open>irecovery_event_t\<close>, without its floating-point \<open>progress\<close> field.\<close>

record irecovery_event_t =
  ev_size :: nat
  ev_data :: string
  ev_type :: nat

text \<open>
  \<open>struct irecovery_client\<close>. The log callback is left out: logging is the only thing it
  does. The fields from \<open>handle\<close> on are the device zone (\<open>DEVICE_ZONE_OFFSET\<close>); the
  progress callback is a pure function of the event to the \<open>int\<close> it returns.
\<close>

record irecovery_client =
  connection_policy :: irecovery_connection_policy_t
  ecid_restriction :: "64 word"
  num_connections :: int
  handle :: usb_device_t
  device_descriptor :: usb_device_descriptor_t
  device_info :: irecovery_device_info
  mode :: uint
  finalized :: int
  progress_callback :: "(irecovery_event_t \<Rightarrow> int) option"

subsection \<open>The USB backend\<close>

text \<open>
  usbdrvce is outside the sources. Its calls are recorded, in order, in a trace, and what
  they return is read from a script: every call that returns something takes the next
  scripted result (an error code with \<open>USB_SUCCESS = 0\<close>, a byte count, the bytes it wrote
  to the caller's buffer); a script that has run out answers with an error. Any behaviour
  of a device is some script. \<open>usb_HandleEvents\<close> delivers the next batch of pending
  events to the event handler. \<open>malloc\<close> and \<open>calloc\<close> fail where the allocation script
  says so. A call of the progress callback is recorded in the trace as well.
\<close>

datatype usb_event =
    USB_ROLE_CHANGED_EVENT byte
  | USB_DEVICE_DISCONNECTED_EVENT usb_device_t
  | USB_DEVICE_CONNECTED_EVENT usb_device_t
  | USB_DEVICE_DISABLED_EVENT usb_device_t
  | USB_DEVICE_ENABLED_EVENT usb_device_t
  | USB_OTHER_EVENT

datatype usb_call =
    Init
  | Cleanup
  | GetDescriptor usb_device_t
  | GetStringDescriptor usb_device_t byte nat
  | GetConfigurationDescriptorTotalLength usb_device_t byte
  | GetConfigurationDescriptor usb_device_t byte nat
  | SetConfiguration usb_device_t nat
  | ResetDevice usb_device_t
  | ControlTransfer usb_device_t byte byte "16 word" "16 word" "16 word" "byte list"
  | Transfer usb_device_t byte "byte list"
  | ProgressCallback irecovery_event_t int

datatype usb_result = Usb_Result (usb_error: int) (transferred: nat) (payload: "byte list")

record usb_world =
  usb_role :: byte
  usb_pending :: "usb_event list list"
  usb_results :: "usb_result list"
  alloc_fails :: "bool list"
  usb_trace :: "usb_call list"

definition usb_note :: "usb_call \<Rightarrow> usb_world \<Rightarrow> usb_world" where
  "usb_note call w = w\<lparr>usb_trace := usb_trace w @ [call]\<rparr>"

definition usb_backend :: "usb_call \<Rightarrow> usb_world \<Rightarrow> usb_result \<times> usb_world" where
  "usb_backend call w =
     (case usb_results w of
        [] \<Rightarrow> (Usb_Result 1 0 [], usb_note call w)
      | r # rs \<Rightarrow> (r, usb_note call (w\<lparr>usb_results := rs\<rparr>)))"

text \<open>\<open>True\<close> when the allocation succeeded.\<close>

definition malloc_ok :: "usb_world \<Rightarrow> bool \<times> usb_world" where
  "malloc_ok w =
     (case alloc_fails w of
        [] \<Rightarrow> (True, w)
      | f # fs \<Rightarrow> (\<not> f, w\<lparr>alloc_fails := fs\<rparr>))"

text \<open>\<open>(role & USB_ROLE_DEVICE) == USB_ROLE_DEVICE\<close>, with \<open>USB_ROLE_DEVICE = 1 << 4\<close> of
  usbdrvce.h.\<close>

definition USB_ROLE_DEVICE :: byte where
  "USB_ROLE_DEVICE = 0x10"

definition role_is_device :: "byte \<Rightarrow> bool" where
  "role_is_device r = (r AND USB_ROLE_DEVICE = USB_ROLE_DEVICE)"

subsection \<open>Device zone\<close>

definition device_zone_nonzero :: "irecovery_client \<Rightarrow> bool" where
  "device_zone_nonzero client =
     (handle client \<noteq> 0 \<or> device_descriptor client \<noteq> zero_descriptor
      \<or> device_info client \<noteq> zero_device_info \<or> mode client \<noteq> 0
      \<or> finalized client \<noteq> 0 \<or> progress_callback client \<noteq> None)"

definition irecovery_client_clear_device_zone :: "irecovery_client \<Rightarrow> irecovery_client" where
  "irecovery_client_clear_device_zone client =
     (if \<not> device_zone_nonzero client then client
      else client\<lparr>handle := 0, device_descriptor := zero_descriptor,
                  device_info := zero_device_info, mode := 0, finalized := 0,
                  progress_callback := None\<rparr>)"

text \<open>\<open>irecovery_device_is_supported\<close>: the answer, the descriptor it stored through
  \<open>ret_device_descriptor\<close> (if it got that far), the backend.\<close>

definition irecovery_device_is_supported ::
  "usb_device_t \<Rightarrow> usb_world \<Rightarrow> bool \<times> usb_device_descriptor_t option \<times> usb_world" where
  "irecovery_device_is_supported device w =
     (if device = 0 then (False, None, w)
      else
        let (r, w1) = usb_backend (GetDescriptor device) w in
        if usb_error r \<noteq> 0 \<or> transferred r \<noteq> 18 then (False, None, w1)
        else
          let dd = take 18 (payload r @ replicate 18 0) in
          (idVendor dd = APPLE_VENDOR_ID \<and>
             (ucast (idProduct dd) = IRECOVERY_K_RECOVERY_MODE_1 \<or>
              ucast (idProduct dd) = IRECOVERY_K_RECOVERY_MODE_2 \<or>
              ucast (idProduct dd) = IRECOVERY_K_RECOVERY_MODE_3 \<or>
              ucast (idProduct dd) = IRECOVERY_K_RECOVERY_MODE_4 \<or>
              ucast (idProduct dd) = IRECOVERY_K_WTF_MODE \<or>
              ucast (idProduct dd) = IRECOVERY_K_DFU_MODE),
           Some dd, w1))"

text \<open>The test of \<open>irecovery_client_is_usable\<close>, after the optional \<open>usb_HandleEvents\<close>.\<close>

definition usable_now :: "irecovery_client \<Rightarrow> usb_world \<Rightarrow> bool" where
  "usable_now client w =
     (handle client \<noteq> 0 \<and> \<not> role_is_device (usb_role w) \<and> device_zone_nonzero client)"

subsection \<open>Event handler\<close>

text \<open>The tail of the \<open>USB_DEVICE_ENABLED_EVENT\<close> case, once the policy let the device through.\<close>

definition adopt_device ::
  "usb_device_t \<Rightarrow> irecovery_client \<Rightarrow> usb_world \<Rightarrow> int \<times> irecovery_client \<times> usb_world" where
  "adopt_device enabled_device client w =
     (let (supported, dd, w1) = irecovery_device_is_supported enabled_device w;
          client1 = (case dd of None \<Rightarrow> client | Some d \<Rightarrow> client\<lparr>device_descriptor := d\<rparr>)
      in if supported then (0, client1\<lparr>handle := enabled_device\<rparr>, w1)
         else (0, irecovery_client_clear_device_zone client1, w1))"

fun usb_event_handler ::
  "usb_event \<Rightarrow> irecovery_client \<Rightarrow> usb_world \<Rightarrow> int \<times> irecovery_client \<times> usb_world" where
  "usb_event_handler (USB_ROLE_CHANGED_EVENT new_role) client w =
     (if role_is_device new_role then (0, irecovery_client_clear_device_zone client, w)
      else (0, client, w))"
| "usb_event_handler (USB_DEVICE_DISCONNECTED_EVENT disconnected_device) client w =
     (if disconnected_device = handle client
      then (0, irecovery_client_clear_device_zone client, w)
      else (0, client, w))"
| "usb_event_handler (USB_DEVICE_CONNECTED_EVENT connected_device) client w =
     (if role_is_device (usb_role w) then (0, client, w)
      else let (r, w1) = usb_backend (ResetDevice connected_device) w
           in (usb_error r, client, w1))"
| "usb_event_handler (USB_DEVICE_DISABLED_EVENT disabled_device) client w = (0, client, w)"
| "usb_event_handler (USB_DEVICE_ENABLED_EVENT enabled_device) client w =
     (if role_is_device (usb_role w) then (0, client, w)
      else if enabled_device = handle client then (0, client, w)
      else
        (case connection_policy client of
           IRECOVERY_CLIENT_DEVICE_POLICY_ACCEPT_ALL \<Rightarrow>
             adopt_device enabled_device (irecovery_client_clear_device_zone client) w
         | IRECOVERY_CLIENT_DEVICE_POLICY_ACCEPT_ONLY_WHEN_NO_CURRENT_CONNECTION \<Rightarrow>
             if usable_now client w then (0, client, w)
             else adopt_device enabled_device client w
         | IRECOVERY_CLIENT_DEVICE_POLICY_ONE_CONNECTION_LIMIT \<Rightarrow>
             if num_connections client = 1 then (0, client, w)
             else adopt_device enabled_device client w))"
| "usb_event_handler USB_OTHER_EVENT client w = (0, client, w)"

text \<open>
  \<open>usb_HandleEvents\<close>: the backend hands every event of the next batch to the handler that
  \<open>usb_Init\<close> registered. A role change is in force (\<open>usb_GetRole\<close>) when its event is
  delivered. The handler's return value goes back to the backend and is not used here.
\<close>

fun deliver_events ::
  "usb_event list \<Rightarrow> irecovery_client \<Rightarrow> usb_world \<Rightarrow> irecovery_client \<times> usb_world" where
  "deliver_events [] client w = (client, w)"
| "deliver_events (e # es) client w =
     (let w0 = (case e of USB_ROLE_CHANGED_EVENT r \<Rightarrow> w\<lparr>usb_role := r\<rparr> | _ \<Rightarrow> w);
          (err, client1, w1) = usb_event_handler e client w0
      in deliver_events es client1 w1)"

definition usb_HandleEvents :: "irecovery_client \<Rightarrow> usb_world \<Rightarrow> irecovery_client \<times> usb_world" where
  "usb_HandleEvents client w =
     (case usb_pending w of
        [] \<Rightarrow> (client, w)
      | batch # rest \<Rightarrow> deliver_events batch client (w\<lparr>usb_pending := rest\<rparr>))"

definition irecovery_client_is_usable ::
  "irecovery_client \<Rightarrow> usb_world \<Rightarrow> bool \<Rightarrow> bool \<times> irecovery_client \<times> usb_world" where
  "irecovery_client_is_usable client w run_event_handler =
     (let (client1, w1) = (if run_event_handler then usb_HandleEvents client w else (client, w))
      in (usable_now client1 w1, client1, w1))"

text \<open>\<open>irecovery_client_new\<close>, called with a pointer to a NULL client: the static zone is
  set on a zeroed client and the handler is registered with \<open>usb_Init\<close>.\<close>

definition irecovery_client_new ::
  "irecovery_connection_policy_t \<Rightarrow> 64 word \<Rightarrow> usb_world \<Rightarrow> int \<times> irecovery_client option \<times> usb_world" where
  "irecovery_client_new policy ecid_arg w =
     (let (ok, w1) = malloc_ok w in
      if \<not> ok then (IRECOVERY_E_NO_MEMORY, None, w1)
      else
        let client = \<lparr>connection_policy = policy, ecid_restriction = ecid_arg, num_connections = 0,
                      handle = 0, device_descriptor = zero_descriptor,
                      device_info = zero_device_info, mode = 0, finalized = 0,
                      progress_callback = None\<rparr>;
            (r, w2) = usb_backend Init w1
        in if usb_error r \<noteq> 0 then (IRECOVERY_E_USB_INIT_FAILED, None, usb_note Cleanup (usb_note Cleanup w2))
           else (IRECOVERY_E_SUCCESS, Some client, w2))"


section \<open>Identification and finalization\<close>

subsection \<open>String descriptors\<close>

text \<open>
  \<open>irecovery_get_string_descriptor_ascii\<close>, for a non-NULL destination of \<open>dst_size\<close> bytes
  (both callers pass a local array). The descriptor buffer holds \<open>2 + dst_size * 2\<close> bytes:
  \<open>bLength\<close>, \<open>bDescriptorType\<close> and the UTF-16LE code units \<open>bString\<close>; bytes of it
  that the backend did not write are taken as zero. \<open>(bLength - 2) / 2\<close> is computed in
  \<open>int\<close>, truncating towards zero, and converted to \<open>size_t\<close>: a negative value becomes
  larger than any \<open>dst_size\<close>, so only \<open>i < dst_size - 1\<close> bounds the loop then.
  Returns the code or count, the destination buffer (all \<open>dst_size\<close> bytes), client and backend.
\<close>

definition bString :: "byte list \<Rightarrow> nat \<Rightarrow> 16 word" where
  "bString desc i = le16 (desc ! (2 + 2 * i)) (desc ! (3 + 2 * i))"

definition ascii_of_unit :: "16 word \<Rightarrow> char" where
  "ascii_of_unit wc = (if wc \<le> 0x7F then char_of (unat wc) else CHR ''?'')"

definition irecovery_get_string_descriptor_ascii ::
  "irecovery_client \<Rightarrow> usb_world \<Rightarrow> byte \<Rightarrow> nat \<Rightarrow> int \<times> string \<times> irecovery_client \<times> usb_world" where
  "irecovery_get_string_descriptor_ascii client w desc_index dst_size =
     (let (usable, client1, w1) = irecovery_client_is_usable client w True in
      if \<not> usable then (IRECOVERY_E_NO_DEVICE, [], client1, w1)
      else if dst_size = 0 then (IRECOVERY_E_DST_BUF_SIZE_ZERO, [], client1, w1)
      else
        let string_descriptor_len = 2 + dst_size * 2;
            (ok, w2) = malloc_ok w1 in
        if \<not> ok then (IRECOVERY_E_NO_MEMORY, [], client1, w2)
        else
          let (r, w3) = usb_backend (GetStringDescriptor (handle client1) desc_index string_descriptor_len) w2 in
          if usb_error r \<noteq> 0 \<or> transferred r = 0
          then (IRECOVERY_E_DESCRIPTOR_FETCH_FAILED, [], client1, w3)
          else
            let desc = take string_descriptor_len (payload r @ replicate string_descriptor_len 0);
                x = int (unat (desc ! 0)) - 2;
                d = (if x < 0 then - ((- x) div 2) else x div 2);
                n = (if d < 0 then dst_size - 1 else min (nat d) (dst_size - 1));
                buffer = map (\<lambda>i. ascii_of_unit (bString desc i)) [0..<n] @ replicate (dst_size - n) (CHR 0x00)
            in (int n, buffer, client1, w3))"

text \<open>The C string that starts a buffer.\<close>

definition c_str :: "string \<Rightarrow> string" where
  "c_str buf = takeWhile (\<lambda>ch. ch \<noteq> CHR 0x00) buf"

subsection \<open>Identity parser\<close>

text \<open>
  \<open>nsscanf\<close> is declared in nsscanf.h, which is not part of the sources. The parser takes
  its conversions as a parameter: what \<open>%x\<close>, \<open>%llx\<close> (\<open>SCNx64\<close>), \<open>%s\<close> and \<open>%2x\<close> store
  when applied to the text behind the literal part of the format, or \<open>None\<close> when the
  conversion fails and nothing is stored.
\<close>

record nsscanf_t =
  scan_x :: "string \<Rightarrow> uint option"
  scan_llx :: "string \<Rightarrow> 64 word option"
  scan_s :: "string \<Rightarrow> string option"
  scan_2x :: "string \<Rightarrow> int option"

text \<open>\<open>strstr\<close>: the suffix that starts at the first occurrence.\<close>

fun strstr :: "string \<Rightarrow> string \<Rightarrow> string option" where
  "strstr [] needle = (if needle = [] then Some [] else None)"
| "strstr (ch # rest) needle =
     (if prefix needle (ch # rest) then Some (ch # rest) else strstr rest needle)"

text \<open>\<open>ptr = strrchr(tmp, ']'); if (ptr != NULL) *ptr = '\0';\<close>\<close>

definition cut_at_last_bracket :: "string \<Rightarrow> string" where
  "cut_at_last_bracket tmp =
     (if CHR '']'' \<in> set tmp
      then rev (tl (dropWhile (\<lambda>ch. ch \<noteq> CHR '']'') (rev tmp)))
      else tmp)"

text \<open>The block for one \<open>%x\<close> tag: the field keeps its zero unless the tag is found and the
  conversion stores a value.\<close>

definition load_hex :: "nsscanf_t \<Rightarrow> string \<Rightarrow> string \<Rightarrow> uint" where
  "load_hex sc iboot_string tag =
     (case strstr iboot_string tag of
        None \<Rightarrow> 0
      | Some ptr \<Rightarrow> (case scan_x sc (drop (length tag) ptr) of None \<Rightarrow> 0 | Some v \<Rightarrow> v))"

text \<open>The block for one bracketed tag: \<open>tmp\<close> starts empty, \<open>%s\<close> fills it, the last
  \<open>]\<close> ends it, \<open>strdup\<close> copies it (its result is not checked by the source and is
  taken to succeed).\<close>

definition load_bracketed :: "nsscanf_t \<Rightarrow> string \<Rightarrow> string \<Rightarrow> string option" where
  "load_bracketed sc iboot_string tag =
     (case strstr iboot_string tag of
        None \<Rightarrow> None
      | Some ptr \<Rightarrow>
          Some (cut_at_last_bracket
                  (case scan_s sc (drop (length tag) ptr) of None \<Rightarrow> [] | Some tmp \<Rightarrow> tmp)))"

definition irecovery_load_device_info_from_iboot_string ::
  "nsscanf_t \<Rightarrow> irecovery_client \<Rightarrow> string \<Rightarrow> irecovery_client" where
  "irecovery_load_device_info_from_iboot_string sc client iboot_string =
     client\<lparr>device_info :=
        \<lparr>cpid = load_hex sc iboot_string ''CPID:'',
         cprv = load_hex sc iboot_string ''CPRV:'',
         cpfm = load_hex sc iboot_string ''CPFM:'',
         scep = load_hex sc iboot_string ''SCEP:'',
         bdid = (case strstr iboot_string ''BDID:'' of
                   None \<Rightarrow> 0
                 | Some ptr \<Rightarrow> ucast (case scan_llx sc (drop 5 ptr) of None \<Rightarrow> 0 | Some v \<Rightarrow> v)),
         ecid = (case strstr iboot_string ''ECID:'' of
                   None \<Rightarrow> 0
                 | Some ptr \<Rightarrow> (case scan_llx sc (drop 5 ptr) of None \<Rightarrow> 0 | Some v \<Rightarrow> v)),
         ibfl = load_hex sc iboot_string ''IBFL:'',
         srnm = load_bracketed sc iboot_string ''SRNM:['',
         imei = load_bracketed sc iboot_string ''IMEI:['',
         srtg = load_bracketed sc iboot_string ''SRTG:['',
         serial_string = Some iboot_string,
         pwnd = load_bracketed sc iboot_string ''PWND:['',
         ap_nonce = None, ap_nonce_size = 0, sep_nonce = None, sep_nonce_size = 0,
         pid = idProduct (device_descriptor client)\<rparr>,
       mode := ucast (idProduct (device_descriptor client))\<rparr>"

subsection \<open>Control transfers and configuration\<close>

text \<open>
  \<open>irecovery_usb_control_transfer\<close>. \<open>data\<close> is what the pointer refers to (empty for
  NULL). A request whose \<open>bmRequestType\<close> has bit 7 set reads from the device: up to
  \<open>wLength\<close> bytes of the result are written over the start of \<open>data\<close>; any other request
  sends the first \<open>wLength\<close> bytes of \<open>data\<close>. The backend transfers at most \<open>wLength\<close>
  bytes. Returns the code or count, the buffer, client and backend.
\<close>

definition device_to_host :: "byte \<Rightarrow> bool" where
  "device_to_host bm_request_type = bit bm_request_type 7"

definition irecovery_usb_control_transfer ::
  "irecovery_client \<Rightarrow> usb_world \<Rightarrow> byte \<Rightarrow> byte \<Rightarrow> 16 word \<Rightarrow> 16 word \<Rightarrow> byte list \<Rightarrow> 16 word
   \<Rightarrow> int \<times> byte list \<times> irecovery_client \<times> usb_world" where
  "irecovery_usb_control_transfer client w bm_request_type b_request w_value w_index data w_length =
     (let (usable, client1, w1) = irecovery_client_is_usable client w True in
      if \<not> usable then (IRECOVERY_E_NO_DEVICE, data, client1, w1)
      else
        let sent = (if device_to_host bm_request_type then [] else take (unat w_length) data);
            (r, w2) = usb_backend (ControlTransfer (handle client1) bm_request_type b_request
                                     w_value w_index w_length sent) w1 in
        if usb_error r \<noteq> 0 then (IRECOVERY_E_USB_UPLOAD_FAILED, data, client1, w2)
        else
          let received = take (unat w_length) (payload r);
              data1 = (if device_to_host bm_request_type
                       then received @ drop (length received) data else data)
          in (int (min (transferred r) (unat w_length)), data1, client1, w2))"

definition irecovery_get_total_configuration_descriptor ::
  "irecovery_client \<Rightarrow> usb_world \<Rightarrow> byte \<Rightarrow> int \<times> nat \<times> usb_world" where
  "irecovery_get_total_configuration_descriptor client w index =
     (let (r1, w1) = usb_backend (GetConfigurationDescriptorTotalLength (handle client) index) w;
          len = transferred r1 in
      if len = 0 then (IRECOVERY_E_DESCRIPTOR_FETCH_FAILED, len, w1)
      else
        let (ok, w2) = malloc_ok w1 in
        if \<not> ok then (IRECOVERY_E_NO_MEMORY, len, w2)
        else
          let (r2, w3) = usb_backend (GetConfigurationDescriptor (handle client) index len) w2 in
          if usb_error r2 \<noteq> 0 \<or> transferred r2 = 0
          then (IRECOVERY_E_DESCRIPTOR_FETCH_FAILED, 0, w3)
          else (IRECOVERY_E_SUCCESS, len, w3))"

definition irecovery_usb_set_configuration ::
  "irecovery_client \<Rightarrow> usb_world \<Rightarrow> byte \<Rightarrow> int \<times> irecovery_client \<times> usb_world" where
  "irecovery_usb_set_configuration client w configuration =
     (let (usable, client1, w1) = irecovery_client_is_usable client w True in
      if \<not> usable then (IRECOVERY_E_NO_DEVICE, client1, w1)
      else
        let (irecovery_error, len, w2) = irecovery_get_total_configuration_descriptor client1 w1 configuration in
        if irecovery_error \<noteq> IRECOVERY_E_SUCCESS then (irecovery_error, client1, w2)
        else
          let (r, w3) = usb_backend (SetConfiguration (handle client1) len) w2 in
          if usb_error r = 0 then (IRECOVERY_E_SUCCESS, client1, w3)
          else (IRECOVERY_E_DESCRIPTOR_SET_FAILED, client1, w3))"

subsection \<open>Nonces\<close>

text \<open>\<open>strchr\<close>, as the offset of the first occurrence.\<close>

definition strchr :: "string \<Rightarrow> char \<Rightarrow> nat option" where
  "strchr s ch = (if ch \<in> set s then Some (length (takeWhile (\<lambda>x. x \<noteq> ch) s)) else None)"

text \<open>
  The \<open>do ... while (colon)\<close> loop of \<open>irecovery_copy_nonce_with_tag_from_buffer\<close>, on the
  text from \<open>p\<close> on: the text behind the colon of the tag and \<open>nlen\<close> (already halved), or
  \<open>None\<close> where the loop breaks with \<open>nlen = 0\<close>.
\<close>

function nonce_lookup :: "string \<Rightarrow> string \<Rightarrow> (string \<times> nat) option" where
  "nonce_lookup tag p =
     (case strchr p (CHR '':'') of
        None \<Rightarrow> None
      | Some colon \<Rightarrow>
          if colon < length tag then None
          else
            (case strchr (drop colon p) (CHR '' '') of
               None \<Rightarrow>
                 if take (length tag) (drop (colon - length tag) p) = tag
                 then Some (drop (colon + 1) p, length (drop (colon + 1) p) div 2)
                 else None
             | Some space \<Rightarrow>
                 if take (length tag) (drop (colon - length tag) p) = tag
                 then Some (drop (colon + 1) p, (space - 1) div 2)
                 else nonce_lookup tag (drop (colon + space + 1) p)))"
  by pat_completeness auto
termination
proof (relation "measure (\<lambda>(tag, p). length p)")
  show "wf (measure (\<lambda>(tag, p). length p))" by simp
next
  fix tag p :: string and colon space :: nat
  assume "strchr p (CHR '':'') = Some colon"
  then have "p \<noteq> []" by (auto simp: strchr_def split: if_splits)
  then show "((tag, drop (colon + space + 1) p), (tag, p)) \<in> measure (\<lambda>(tag, p). length p)"
    by (cases p) simp_all
qed

text \<open>The loop \<open>for (i = 0; i < nlen; i++)\<close> over pairs of hex digits; \<open>None\<close> where it breaks.\<close>

fun nonce_bytes :: "nsscanf_t \<Rightarrow> string \<Rightarrow> nat \<Rightarrow> byte list option" where
  "nonce_bytes sc nonce_string 0 = Some []"
| "nonce_bytes sc nonce_string (Suc n) =
     (case scan_2x sc nonce_string of
        None \<Rightarrow> None
      | Some val \<Rightarrow>
          (case nonce_bytes sc (drop 2 nonce_string) n of
             None \<Rightarrow> None
           | Some nn \<Rightarrow> Some (of_int val # nn)))"

text \<open>\<open>irecovery_copy_nonce_with_tag_from_buffer\<close>: what is stored through \<open>nonce\<close> and
  \<open>nonce_size\<close>, or \<open>None\<close> when the function returns without storing.\<close>

definition irecovery_copy_nonce_with_tag_from_buffer ::
  "nsscanf_t \<Rightarrow> usb_world \<Rightarrow> string \<Rightarrow> string \<Rightarrow> (byte list \<times> nat) option \<times> usb_world" where
  "irecovery_copy_nonce_with_tag_from_buffer sc w tag buf =
     (case nonce_lookup tag buf of
        None \<Rightarrow> (None, w)
      | Some (nonce_string, nlen) \<Rightarrow>
          if nlen = 0 then (None, w)
          else
            let (ok, w1) = malloc_ok w in
            if \<not> ok then (None, w1)
            else (case nonce_bytes sc nonce_string nlen of
                    None \<Rightarrow> (None, w1)
                  | Some nn \<Rightarrow> (Some (nn, nlen), w1)))"

text \<open>\<open>irecovery_copy_nonce_with_tag\<close>, where \<open>current\<close> is the nonce field it is to fill.\<close>

definition irecovery_copy_nonce_with_tag ::
  "nsscanf_t \<Rightarrow> irecovery_client \<Rightarrow> usb_world \<Rightarrow> string \<Rightarrow> byte list option
   \<Rightarrow> (byte list \<times> nat) option \<times> irecovery_client \<times> usb_world" where
  "irecovery_copy_nonce_with_tag sc client w tag current =
     (if \<not> usable_now client w \<or> current \<noteq> None then (None, client, w)
      else
        let (len, buf, client1, w1) = irecovery_get_string_descriptor_ascii client w 1 255 in
        if len < 0 then (None, client1, w1)
        else
          let (res, w2) = irecovery_copy_nonce_with_tag_from_buffer sc w1 tag (c_str buf)
          in (res, client1, w2))"

subsection \<open>Finalization and polling\<close>

definition irecovery_finalize_client ::
  "nsscanf_t \<Rightarrow> irecovery_client \<Rightarrow> usb_world \<Rightarrow> int \<times> irecovery_client \<times> usb_world" where
  "irecovery_finalize_client sc client w =
     (if \<not> usable_now client w then (IRECOVERY_E_NO_DEVICE, client, w)
      else if finalized client > 0 then (IRECOVERY_E_SUCCESS, client, w)
      else if finalized client < 0 then (IRECOVERY_E_FINALIZATION_BLOCKED, client, w)
      else
        let (ret, serial_str, client1, w1) =
              irecovery_get_string_descriptor_ascii client w (iSerialNumber (device_descriptor client)) 255 in
        if ret < 0 then (ret, client1, w1)
        else
          let client2 = irecovery_load_device_info_from_iboot_string sc client1 (c_str serial_str) in
          if ecid_restriction client2 \<noteq> 0 \<and> ecid_restriction client2 \<noteq> ecid (device_info client2)
          then (IRECOVERY_E_ECID_MISMATCH, client2\<lparr>finalized := - 1\<rparr>, w1)
          else
            let (error, client3, w3) = irecovery_usb_set_configuration client2 w1 1 in
            if error \<noteq> IRECOVERY_E_SUCCESS then (error, client3\<lparr>finalized := - 1\<rparr>, w3)
            else
              let (ap, client4, w4) =
                    irecovery_copy_nonce_with_tag sc client3 w3 ''NONC'' (ap_nonce (device_info client3));
                  client5 = (case ap of
                               None \<Rightarrow> client4
                             | Some (nn, nlen) \<Rightarrow>
                                 client4\<lparr>device_info := (device_info client4)
                                    \<lparr>ap_nonce := Some nn, ap_nonce_size := of_nat nlen\<rparr>\<rparr>);
                  (sep, client6, w6) =
                    irecovery_copy_nonce_with_tag sc client5 w4 ''SNON'' (sep_nonce (device_info client5));
                  client7 = (case sep of
                               None \<Rightarrow> client6
                             | Some (nn, nlen) \<Rightarrow>
                                 client6\<lparr>device_info := (device_info client6)
                                    \<lparr>sep_nonce := Some nn, sep_nonce_size := of_nat nlen\<rparr>\<rparr>)
              in (error, client7\<lparr>finalized := 1\<rparr>, w6))"

text \<open>\<open>irecovery_poll_for_device\<close> on the client the handler is registered for.\<close>

definition irecovery_poll_for_device ::
  "nsscanf_t \<Rightarrow> irecovery_client \<Rightarrow> usb_world \<Rightarrow> int \<times> irecovery_client \<times> usb_world" where
  "irecovery_poll_for_device sc client w =
     (let (client1, w1) = usb_HandleEvents client w
      in irecovery_finalize_client sc client1 w1)"


section \<open>Transfers, commands and uploads\<close>

text \<open>\<open>irecovery_usb_bulk_transfer\<close>: \<open>data\<close> are the \<open>length\<close> bytes to send and
  \<open>transferred_in\<close> is what \<open>*transferred\<close> holds before the call. Returns the code or
  count, \<open>*transferred\<close> afterwards, client and backend.\<close>

definition irecovery_usb_bulk_transfer ::
  "irecovery_client \<Rightarrow> usb_world \<Rightarrow> byte \<Rightarrow> byte list \<Rightarrow> int
   \<Rightarrow> int \<times> int \<times> irecovery_client \<times> usb_world" where
  "irecovery_usb_bulk_transfer client w endpoint data transferred_in =
     (let (usable, client1, w1) = irecovery_client_is_usable client w True in
      if \<not> usable then (IRECOVERY_E_NO_DEVICE, transferred_in, client1, w1)
      else
        let (r, w2) = usb_backend (Transfer (handle client1) endpoint data) w1 in
        if usb_error r \<noteq> 0 then (IRECOVERY_E_USB_UPLOAD_FAILED, transferred_in, client1, w2)
        else
          let n = int (min (transferred r) (length data))
          in (n, n, client1, w2))"

text \<open>\<open>irecovery_get_status\<close>: the code, \<open>*status\<close>, client and backend.\<close>

definition irecovery_get_status ::
  "irecovery_client \<Rightarrow> usb_world \<Rightarrow> int \<times> nat \<times> irecovery_client \<times> usb_world" where
  "irecovery_get_status client w =
     (let (usable, client1, w1) = irecovery_client_is_usable client w True in
      if \<not> usable then (IRECOVERY_E_NO_DEVICE, 0, client1, w1)
      else
        let (ret, buffer, client2, w2) =
              irecovery_usb_control_transfer client1 w1 0xA1 3 0 0 (replicate 6 0) 6 in
        if ret \<noteq> 6 then (IRECOVERY_E_INVALID_USB_STATUS, 0, client2, w2)
        else (IRECOVERY_E_SUCCESS, unat (buffer ! 4), client2, w2))"

subsection \<open>Commands\<close>

definition recovery_mode_id :: "uint \<Rightarrow> bool" where
  "recovery_mode_id m =
     (m = IRECOVERY_K_RECOVERY_MODE_1 \<or> m = IRECOVERY_K_RECOVERY_MODE_2 \<or>
      m = IRECOVERY_K_RECOVERY_MODE_3 \<or> m = IRECOVERY_K_RECOVERY_MODE_4)"

text \<open>The bytes of a command on the wire: its characters and the terminating NUL.\<close>

definition c_bytes :: "string \<Rightarrow> byte list" where
  "c_bytes s = map of_char s @ [0]"

definition irecovery_send_command_raw ::
  "irecovery_client \<Rightarrow> usb_world \<Rightarrow> string option \<Rightarrow> byte \<Rightarrow> int \<times> irecovery_client \<times> usb_world" where
  "irecovery_send_command_raw client w command b_request =
     (let (usable, client1, w1) = irecovery_client_is_usable client w True in
      if \<not> usable then (IRECOVERY_E_NO_DEVICE, client1, w1)
      else
        (case command of
           None \<Rightarrow> (IRECOVERY_E_BAD_PTR, client1, w1)
         | Some cmd \<Rightarrow>
             if \<not> recovery_mode_id (mode client1) then (IRECOVERY_E_SERVICE_NOT_AVAILABLE, client1, w1)
             else if length cmd \<ge> 256 then (IRECOVERY_E_COMMAND_TOO_LONG, client1, w1)
             else if length cmd > 0 then
               let (ret, d, client2, w2) =
                     irecovery_usb_control_transfer client1 w1 0x40 b_request 0 0 (c_bytes cmd)
                       (of_nat (length cmd + 1))
               in if ret < 0 then (ret, client2, w2) else (IRECOVERY_E_SUCCESS, client2, w2)
             else (IRECOVERY_E_NO_COMMAND, client1, w1)))"

definition irecovery_send_command_breq ::
  "irecovery_client \<Rightarrow> usb_world \<Rightarrow> string option \<Rightarrow> byte \<Rightarrow> int \<times> irecovery_client \<times> usb_world" where
  "irecovery_send_command_breq client w command b_request =
     (let (usable, client1, w1) = irecovery_client_is_usable client w True in
      if \<not> usable then (IRECOVERY_E_NO_DEVICE, client1, w1)
      else
        (case command of
           None \<Rightarrow> (IRECOVERY_E_BAD_PTR, client1, w1)
         | Some cmd \<Rightarrow>
             if \<not> recovery_mode_id (mode client1) then (IRECOVERY_E_SERVICE_NOT_AVAILABLE, client1, w1)
             else if length cmd \<ge> 256 then (IRECOVERY_E_COMMAND_TOO_LONG, client1, w1)
             else irecovery_send_command_raw client1 w1 command b_request))"

definition irecovery_is_breq_command :: "string \<Rightarrow> bool" where
  "irecovery_is_breq_command cmd =
     (cmd = ''go'' \<or> cmd = ''bootx'' \<or> cmd = ''reboot'' \<or> cmd = ''memboot'')"

definition irecovery_send_command ::
  "irecovery_client \<Rightarrow> usb_world \<Rightarrow> string option \<Rightarrow> int \<times> irecovery_client \<times> usb_world" where
  "irecovery_send_command client w command =
     (case command of
        None \<Rightarrow> (IRECOVERY_E_BAD_PTR, client, w)
      | Some cmd \<Rightarrow>
          irecovery_send_command_breq client w command (if irecovery_is_breq_command cmd then 1 else 0))"

text \<open>
  \<open>irecovery_getenv\<close>. \<open>value\<close> is the out-parameter: \<open>None\<close> for a NULL \<open>char**\<close>,
  \<open>Some None\<close> when it points to a NULL \<open>char*\<close>, \<open>Some (Some b)\<close> when it points to a
  buffer \<open>b\<close>. The second component of the result is the out-parameter after the call.
  \<open>snprintf(command, sizeof(command)-1, ...)\<close> keeps at most 254 characters.
\<close>

definition irecovery_getenv ::
  "irecovery_client \<Rightarrow> usb_world \<Rightarrow> string option \<Rightarrow> byte list option option
   \<Rightarrow> int \<times> byte list option option \<times> irecovery_client \<times> usb_world" where
  "irecovery_getenv client w variable value =
     (case variable of
        None \<Rightarrow> (IRECOVERY_E_BAD_PTR, value, client, w)
      | Some var \<Rightarrow>
          (case value of
             None \<Rightarrow> (IRECOVERY_E_BAD_PTR, value, client, w)
           | Some (Some b) \<Rightarrow> (IRECOVERY_E_BAD_PTR, value, client, w)
           | Some None \<Rightarrow>
               let command = take 254 (''getenv '' @ var);
                   (error, client1, w1) = irecovery_send_command_raw client w (Some command) 0 in
               if error \<noteq> IRECOVERY_E_SUCCESS then (error, value, client1, w1)
               else
                 let (ok, w2) = malloc_ok w1 in
                 if \<not> ok then (IRECOVERY_E_NO_MEMORY, value, client1, w2)
                 else
                   let (ret, response, client3, w3) =
                         irecovery_usb_control_transfer client1 w2 0xC0 0 0 0 (replicate 256 0) 255 in
                   if ret < 0 then (ret, value, client3, w3)
                   else (IRECOVERY_E_SUCCESS, Some (Some response), client3, w3)))"

subsection \<open>Upload\<close>

text \<open>The \<open>switch (state)\<close> that starts a DFU or WTF upload; the value of \<open>error\<close> behind it
  (or the early return), client and backend.\<close>

definition dfu_initiate :: "irecovery_client \<Rightarrow> usb_world \<Rightarrow> int \<times> irecovery_client \<times> usb_world" where
  "dfu_initiate client w =
     (let (ret, state, client1, w1) = irecovery_usb_control_transfer client w 0xa1 5 0 0 [0] 1 in
      if ret \<noteq> 1 then (IRECOVERY_E_USB_UPLOAD_FAILED, client1, w1)
      else if state ! 0 = 2 then (IRECOVERY_E_SUCCESS, client1, w1)
      else if state ! 0 = 10 then
        let (r, d, client2, w2) = irecovery_usb_control_transfer client1 w1 0x21 4 0 0 [] 0
        in (IRECOVERY_E_USB_UPLOAD_FAILED, client2, w2)
      else
        let (r, d, client2, w2) = irecovery_usb_control_transfer client1 w1 0x21 6 0 0 [] 0
        in (IRECOVERY_E_USB_UPLOAD_FAILED, client2, w2))"

text \<open>\<open>while (retry++ < 20)\<close>: the number of tries left, and \<open>status\<close>.\<close>

fun poll_status ::
  "nat \<Rightarrow> nat \<Rightarrow> irecovery_client \<Rightarrow> usb_world \<Rightarrow> nat \<times> irecovery_client \<times> usb_world" where
  "poll_status 0 status client w = (status, client, w)"
| "poll_status (Suc n) status client w =
     (let (e, status1, client1, w1) = irecovery_get_status client w in
      if status1 = 5 then (status1, client1, w1)
      else poll_status n status1 client1 w1)"

text \<open>
  The DFU/WTF branch of the loop body for packet \<open>i\<close>: the CRC over the packet, then either
  the plain chunk or, for the last packet, the chunk with the trailer (after the chunk alone
  when both do not fit). \<open>Inl\<close> is a \<open>return\<close> out of \<open>irecovery_send_buffer\<close>; \<open>Inr\<close> carries
  \<open>h1\<close>, \<open>count\<close>, \<open>size\<close>, \<open>bytes\<close>, client and backend on to the check \<open>bytes != size\<close>.
  The call passes \<open>i\<close> as \<open>w_value\<close> and \<open>0\<close> as \<open>w_index\<close>.
\<close>

definition dfu_packet ::
  "nat \<Rightarrow> nat \<Rightarrow> byte list \<Rightarrow> nat \<Rightarrow> nat \<Rightarrow> 32 word \<Rightarrow> nat \<Rightarrow> irecovery_client \<Rightarrow> usb_world
   \<Rightarrow> (int \<times> irecovery_client \<times> usb_world)
     + (32 word \<times> nat \<times> nat \<times> int \<times> irecovery_client \<times> usb_world)" where
  "dfu_packet packet_size packets buffer i size0 h1 count client w =
     (let h1a = fold crc32_step (take size0 (drop (i * packet_size) buffer)) h1 in
      if i + 1 = packets then
        (case (if size0 + 16 > packet_size then
                 (let (ret, d, client1, w1) =
                        irecovery_usb_control_transfer client w 0x21 1 (of_nat i) 0
                          (drop (i * packet_size) buffer) (of_nat size0)
                  in if ret \<noteq> int size0 then Inl (IRECOVERY_E_USB_UPLOAD_FAILED, client1, w1)
                     else Inr (count + size0, 0, client1, w1))
               else Inr (count, size0, client, w)) of
           Inl r \<Rightarrow> Inl r
         | Inr (count1, size1, client1, w1) \<Rightarrow>
             let h1b = fold crc32_step dfu_xbuf h1a;
                 (ok, w2) = malloc_ok w1 in
             if \<not> ok then Inl (IRECOVERY_E_NO_MEMORY, client1, w2)
             else
               let newbuf = take size1 (drop (i * packet_size) buffer) @ dfu_xbuf @ crc_bytes h1b;
                   size2 = size1 + 16;
                   (ret, d, client3, w3) =
                     irecovery_usb_control_transfer client1 w2 0x21 1 (of_nat i) 0 newbuf (of_nat size2)
               in Inr (h1b, count1, size2, ret, client3, w3))
      else
        let (ret, d, client1, w1) =
              irecovery_usb_control_transfer client w 0x21 1 (of_nat i) 0
                (drop (i * packet_size) buffer) (of_nat size0)
        in Inr (h1a, count, size0, ret, client1, w1))"

text \<open>\<open>if (client->progress_callback) { ... client->progress_callback(client, &event); }\<close>:
  the call is recorded in the trace with the value the callback returns; as in the source,
  nothing looks at that value.\<close>

definition emit_progress :: "irecovery_client \<Rightarrow> nat \<Rightarrow> usb_world \<Rightarrow> usb_world" where
  "emit_progress client count w =
     (case progress_callback client of
        None \<Rightarrow> w
      | Some cb \<Rightarrow>
          let event = \<lparr>ev_size = count, ev_data = ''Uploading'', ev_type = 1\<rparr>
          in usb_note (ProgressCallback event (cb event)) w)"

text \<open>
  The loop body from \<open>if (bytes != size)\<close> on: the check of the transfer, the status poll
  of DFU/WTF, the update of \<open>count\<close> and the progress callback. It takes \<open>h1\<close>, \<open>count\<close>,
  \<open>size\<close>, \<open>bytes\<close>, \<open>error\<close>, client and backend.
\<close>

definition packet_done ::
  "bool \<Rightarrow> 32 word \<times> nat \<times> nat \<times> int \<times> int \<times> irecovery_client \<times> usb_world
   \<Rightarrow> (int \<times> irecovery_client \<times> usb_world)
     + (32 word \<times> nat \<times> int \<times> irecovery_client \<times> usb_world)" where
  "packet_done recovery_mode st =
     (case st of (h1a, count1, size1, bytes1, error, client1, w1) \<Rightarrow>
       if bytes1 \<noteq> int size1 then Inl (IRECOVERY_E_USB_UPLOAD_FAILED, client1, w1)
       else
         let (error1, status, client2, w2) =
               (if \<not> recovery_mode then irecovery_get_status client1 w1
                else (error, 0, client1, w1)) in
         if error1 \<noteq> IRECOVERY_E_SUCCESS then Inl (error1, client2, w2)
         else
           let (status1, client3, w3) =
                 (if \<not> recovery_mode \<and> status \<noteq> 5 then poll_status 20 status client2 w2
                  else (status, client2, w2)) in
           if \<not> recovery_mode \<and> status1 \<noteq> 5 then Inl (IRECOVERY_E_USB_UPLOAD_FAILED, client3, w3)
           else
             let count2 = count1 + size1
             in Inr (h1a, count2, bytes1, client3, emit_progress client3 count2 w3))"

text \<open>
  One pass through the body of \<open>for (int i = 0; i < packets; i++)\<close>: the transfer of
  packet \<open>i\<close> (bulk in recovery mode, control otherwise), then \<open>packet_done\<close>. The state
  that survives a pass is \<open>h1\<close>, \<open>count\<close>, \<open>bytes\<close>, the client and the backend;
  \<open>error\<close> is \<open>IRECOVERY_E_SUCCESS\<close> whenever a pass begins.
\<close>

definition send_packet ::
  "bool \<Rightarrow> nat \<Rightarrow> nat \<Rightarrow> nat \<Rightarrow> byte list \<Rightarrow> nat
   \<Rightarrow> 32 word \<times> nat \<times> int \<times> irecovery_client \<times> usb_world
   \<Rightarrow> (int \<times> irecovery_client \<times> usb_world)
     + (32 word \<times> nat \<times> int \<times> irecovery_client \<times> usb_world)" where
  "send_packet recovery_mode packet_size packets last_size buffer i st =
     (case st of (h1, count, bytes, client, w) \<Rightarrow>
      let size0 = (if i + 1 < packets then packet_size else last_size) in
      if recovery_mode then
        (let (ret, bytes1, client1, w1) =
               irecovery_usb_bulk_transfer client w 0x04
                 (take size0 (drop (i * packet_size) buffer)) bytes
         in packet_done recovery_mode (h1, count, size0, bytes1, ret, client1, w1))
      else
        (case dfu_packet packet_size packets buffer i size0 h1 count client w of
           Inl r \<Rightarrow> Inl r
         | Inr (h1a, count1, size1, ret, client1, w1) \<Rightarrow>
             packet_done recovery_mode (h1a, count1, size1, ret, IRECOVERY_E_SUCCESS, client1, w1)))"

function send_packets ::
  "bool \<Rightarrow> nat \<Rightarrow> nat \<Rightarrow> nat \<Rightarrow> byte list \<Rightarrow> nat
   \<Rightarrow> 32 word \<times> nat \<times> int \<times> irecovery_client \<times> usb_world
   \<Rightarrow> (int \<times> irecovery_client \<times> usb_world)
     + (32 word \<times> nat \<times> int \<times> irecovery_client \<times> usb_world)" where
  "send_packets recovery_mode packet_size packets last_size buffer i st =
     (if i < packets then
        (case send_packet recovery_mode packet_size packets last_size buffer i st of
           Inl r \<Rightarrow> Inl r
         | Inr st1 \<Rightarrow> send_packets recovery_mode packet_size packets last_size buffer (i + 1) st1)
      else Inr st)"
  by pat_completeness auto
termination
  by (relation "measure (\<lambda>(recovery_mode, packet_size, packets, last_size, buffer, i, st). packets - i)") auto

text \<open>\<open>irecovery_send_buffer\<close>; \<open>length\<close> is the length of the buffer passed.\<close>

definition irecovery_send_buffer ::
  "irecovery_client \<Rightarrow> usb_world \<Rightarrow> byte list option \<Rightarrow> uint \<Rightarrow> int \<times> irecovery_client \<times> usb_world" where
  "irecovery_send_buffer client w buffer options =
     (let (usable, client1, w1) = irecovery_client_is_usable client w True in
      if \<not> usable then (IRECOVERY_E_NO_DEVICE, client1, w1)
      else
        (case buffer of
           None \<Rightarrow> (IRECOVERY_E_BAD_PTR, client1, w1)
         | Some buf \<Rightarrow>
             let recovery_mode = (mode client1 \<noteq> IRECOVERY_K_DFU_MODE \<and> mode client1 \<noteq> IRECOVERY_K_WTF_MODE);
                 packet_size = (if recovery_mode then 0x8000 else 0x800);
                 last0 = length buf mod packet_size;
                 packets0 = length buf div packet_size;
                 packets = (if last0 \<noteq> 0 then packets0 + 1 else packets0);
                 last_size = (if last0 \<noteq> 0 then last0 else packet_size);
                 (error, client2, w2) =
                   (if recovery_mode then
                      (let (ret, d, c, w') = irecovery_usb_control_transfer client1 w1 0x41 0 0 0 [] 0
                       in (ret, c, w'))
                    else dfu_initiate client1 w1)
             in
             if error \<noteq> IRECOVERY_E_SUCCESS then (error, client2, w2)
             else
               (case send_packets recovery_mode packet_size packets last_size buf 0
                       (0xFFFFFFFF, 0, 0, client2, w2) of
                  Inl r \<Rightarrow> r
                | Inr (h1, count, bytes, client3, w3) \<Rightarrow>
                    let (client4, w4) =
                          (if recovery_mode \<and> length buf mod 512 = 0 then
                             (let (ret, b, c, w') = irecovery_usb_bulk_transfer client3 w3 0x04 [] 0
                              in (c, w'))
                           else (client3, w3))
                    in
                    if options AND IRECOVERY_SEND_OPT_DFU_NOTIFY_FINISH \<noteq> 0 \<and> \<not> recovery_mode then
                      let (ret, d, client5, w5) =
                            irecovery_usb_control_transfer client4 w4 0x21 1 (of_nat packets) 0 buf 0;
                          (e1, s1, client6, w6) = irecovery_get_status client5 w5 in
                      if e1 \<noteq> IRECOVERY_E_SUCCESS then (e1, client6, w6)
                      else
                        let (e2, s2, client7, w7) = irecovery_get_status client6 w6 in
                        if e2 \<noteq> IRECOVERY_E_SUCCESS then (e2, client7, w7)
                        else
                          let (client8, w8) =
                                (if options AND IRECOVERY_SEND_OPT_DFU_FORCE_ZLP \<noteq> 0 then
                                   (let (ret, d, c, w') =
                                          irecovery_usb_control_transfer client7 w7 0x21 0 0 0 [] 0
                                    in (c, w'))
                                 else (client7, w7));
                              (r, w9) = usb_backend (ResetDevice (handle client8)) w8
                          in (IRECOVERY_E_SUCCESS, client8, w9)
                    else (IRECOVERY_E_SUCCESS, client4, w4))))"


section \<open>Notions used in the statements\<close>

text \<open>
  An event that leaves a client attached to device \<open>h\<close> as it is while the calculator is
  the host: another device being disconnected, any device being disabled, device \<open>h\<close>
  itself being enabled again, an event the handler has no case for.
\<close>

fun benign_event :: "usb_device_t \<Rightarrow> usb_event \<Rightarrow> bool" where
  "benign_event h (USB_DEVICE_DISABLED_EVENT d) = True"
| "benign_event h (USB_DEVICE_ENABLED_EVENT d) = (d = h)"
| "benign_event h (USB_DEVICE_DISCONNECTED_EVENT d) = (d \<noteq> h)"
| "benign_event h USB_OTHER_EVENT = True"
| "benign_event h (USB_ROLE_CHANGED_EVENT r) = False"
| "benign_event h (USB_DEVICE_CONNECTED_EVENT d) = False"

text \<open>Device \<open>h\<close> stays attached: every pending event is benign for it.\<close>

definition quiet :: "usb_device_t \<Rightarrow> usb_world \<Rightarrow> bool" where
  "quiet h w = list_all (list_all (benign_event h)) (usb_pending w)"

text \<open>The backend after one call of \<open>usb_HandleEvents\<close> whose events changed nothing.\<close>

definition skip_batch :: "usb_world \<Rightarrow> usb_world" where
  "skip_batch w = w\<lparr>usb_pending := tl (usb_pending w)\<rparr>"

text \<open>The data of a DFU download request (\<open>bmRequestType 0x21\<close>, \<open>bRequest 1\<close>) in the
  trace, and the data-carrying download requests of a backend's trace, in order.\<close>

fun download_data :: "usb_call \<Rightarrow> byte list" where
  "download_data (ControlTransfer h rt rq v i l d) = (if rt = 0x21 \<and> rq = 1 then d else [])"
| "download_data call = []"

definition downloaded :: "usb_world \<Rightarrow> byte list list" where
  "downloaded w = filter (\<lambda>d. d \<noteq> []) (map download_data (usb_trace w))"

text \<open>The download requests that packet \<open>i\<close> of a DFU upload makes when everything
  succeeds, where \<open>chunk\<close> is the packet's slice of the buffer and \<open>h1\<close> the CRC before it.\<close>

definition packet_chunks :: "nat \<Rightarrow> nat \<Rightarrow> nat \<Rightarrow> byte list \<Rightarrow> 32 word \<Rightarrow> byte list list" where
  "packet_chunks packet_size packets i chunk h1 =
     (if i + 1 = packets then
        (if length chunk + 16 > packet_size
         then [chunk, dfu_xbuf @ crc_bytes (fold crc32_step dfu_xbuf (fold crc32_step chunk h1))]
         else [chunk @ dfu_xbuf @ crc_bytes (fold crc32_step dfu_xbuf (fold crc32_step chunk h1))])
      else [chunk])"

section \<open>Example devices and backend scripts\<close>

text \<open>A backend in which the calculator is the host, with the given pending events and
  scripted results, and no allocation failure.\<close>

definition host_world :: "usb_event list list \<Rightarrow> usb_result list \<Rightarrow> usb_world" where
  "host_world events results =
     \<lparr>usb_role = 0, usb_pending = events, usb_results = results, alloc_fails = [], usb_trace = []\<rparr>"

text \<open>The device descriptor of an Apple device with the given product id (low byte, high byte).\<close>

definition apple_descriptor :: "byte \<Rightarrow> byte \<Rightarrow> usb_device_descriptor_t" where
  "apple_descriptor pid_lo pid_hi =
     [18, 1, 0, 2, 0, 0, 0, 64, 0xAC, 0x05, pid_lo, pid_hi, 0, 0, 1, 2, 3, 1]"

text \<open>A finalized client attached to device 1 in the given mode.\<close>

definition attached_client :: "uint \<Rightarrow> (irecovery_event_t \<Rightarrow> int) option \<Rightarrow> irecovery_client" where
  "attached_client m cb =
     \<lparr>connection_policy = IRECOVERY_CLIENT_DEVICE_POLICY_ACCEPT_ALL, ecid_restriction = 0,
      num_connections = 0, handle = 1,
      device_descriptor = apple_descriptor (ucast m) (ucast (drop_bit 8 m)),
      device_info = zero_device_info, mode = m, finalized = 1, progress_callback = cb\<rparr>"

text \<open>Scripted answers of a DFU device: state \<open>dfuIDLE\<close> to GETSTATE, status 5 to GETSTATUS.\<close>

definition dfu_idle :: usb_result where
  "dfu_idle = Usb_Result 0 1 [2]"

definition dfu_status_ok :: usb_result where
  "dfu_status_ok = Usb_Result 0 6 [0, 0, 0, 0, 5, 0]"

section \<open>The table-driven CRC step is the bitwise CRC-32 of polynomial 0xEDB88320\<close>

lemma funpow8: "(f ^^ 8) x = f (f (f (f (f (f (f (f x)))))))"
  by (simp add: numeral_eq_Suc funpow_swap1)

lemma table_literal:
  "map (crc_shift 0xEDB88320 ^^ 8) [0x00, 0x01, 0x02, 0x03, 0x04, 0x05, 0x06, 0x07, 0x08, 0x09, 0x0A, 0x0B, 0x0C, 0x0D, 0x0E, 0x0F,
     0x10, 0x11, 0x12, 0x13, 0x14, 0x15, 0x16, 0x17, 0x18, 0x19, 0x1A, 0x1B, 0x1C, 0x1D, 0x1E, 0x1F,
     0x20, 0x21, 0x22, 0x23, 0x24, 0x25, 0x26, 0x27, 0x28, 0x29, 0x2A, 0x2B, 0x2C, 0x2D, 0x2E, 0x2F,
     0x30, 0x31, 0x32, 0x33, 0x34, 0x35, 0x36, 0x37, 0x38, 0x39, 0x3A, 0x3B, 0x3C, 0x3D, 0x3E, 0x3F,
     0x40, 0x41, 0x42, 0x43, 0x44, 0x45, 0x46, 0x47, 0x48, 0x49, 0x4A, 0x4B, 0x4C, 0x4D, 0x4E, 0x4F,
     0x50, 0x51, 0x52, 0x53, 0x54, 0x55, 0x56, 0x57, 0x58, 0x59, 0x5A, 0x5B, 0x5C, 0x5D, 0x5E, 0x5F,
     0x60, 0x61, 0x62, 0x63, 0x64, 0x65, 0x66, 0x67, 0x68, 0x69, 0x6A, 0x6B, 0x6C, 0x6D, 0x6E, 0x6F,
     0x70, 0x71, 0x72, 0x73, 0x74, 0x75, 0x76, 0x77, 0x78, 0x79, 0x7A, 0x7B, 0x7C, 0x7D, 0x7E, 0x7F,
     0x80, 0x81, 0x82, 0x83, 0x84, 0x85, 0x86, 0x87, 0x88, 0x89, 0x8A, 0x8B, 0x8C, 0x8D, 0x8E, 0x8F,
     0x90, 0x91, 0x92, 0x93, 0x94, 0x95, 0x96, 0x97, 0x98, 0x99, 0x9A, 0x9B, 0x9C, 0x9D, 0x9E, 0x9F,
     0xA0, 0xA1, 0xA2, 0xA3, 0xA4, 0xA5, 0xA6, 0xA7, 0xA8, 0xA9, 0xAA, 0xAB, 0xAC, 0xAD, 0xAE, 0xAF,
     0xB0, 0xB1, 0xB2, 0xB3, 0xB4, 0xB5, 0xB6, 0xB7, 0xB8, 0xB9, 0xBA, 0xBB, 0xBC, 0xBD, 0xBE, 0xBF,
     0xC0, 0xC1, 0xC2, 0xC3, 0xC4, 0xC5, 0xC6, 0xC7, 0xC8, 0xC9, 0xCA, 0xCB, 0xCC, 0xCD, 0xCE, 0xCF,
     0xD0, 0xD1, 0xD2, 0xD3, 0xD4, 0xD5, 0xD6, 0xD7, 0xD8, 0xD9, 0xDA, 0xDB, 0xDC, 0xDD, 0xDE, 0xDF,
     0xE0, 0xE1, 0xE2, 0xE3, 0xE4, 0xE5, 0xE6, 0xE7, 0xE8, 0xE9, 0xEA, 0xEB, 0xEC, 0xED, 0xEE, 0xEF,
     0xF0, 0xF1, 0xF2, 0xF3, 0xF4, 0xF5, 0xF6, 0xF7, 0xF8, 0xF9, 0xFA, 0xFB, 0xFC, 0xFD, 0xFE, 0xFF] = crc32_lookup_t1"
  by (simp add: crc32_lookup_t1_def funpow8 crc_shift_def)

lemma index_literal:
  "map of_nat [0..<256] = ([0x00, 0x01, 0x02, 0x03, 0x04, 0x05, 0x06, 0x07, 0x08, 0x09, 0x0A, 0x0B, 0x0C, 0x0D, 0x0E, 0x0F,
     0x10, 0x11, 0x12, 0x13, 0x14, 0x15, 0x16, 0x17, 0x18, 0x19, 0x1A, 0x1B, 0x1C, 0x1D, 0x1E, 0x1F,
     0x20, 0x21, 0x22, 0x23, 0x24, 0x25, 0x26, 0x27, 0x28, 0x29, 0x2A, 0x2B, 0x2C, 0x2D, 0x2E, 0x2F,
     0x30, 0x31, 0x32, 0x33, 0x34, 0x35, 0x36, 0x37, 0x38, 0x39, 0x3A, 0x3B, 0x3C, 0x3D, 0x3E, 0x3F,
     0x40, 0x41, 0x42, 0x43, 0x44, 0x45, 0x46, 0x47, 0x48, 0x49, 0x4A, 0x4B, 0x4C, 0x4D, 0x4E, 0x4F,
     0x50, 0x51, 0x52, 0x53, 0x54, 0x55, 0x56, 0x57, 0x58, 0x59, 0x5A, 0x5B, 0x5C, 0x5D, 0x5E, 0x5F,
     0x60, 0x61, 0x62, 0x63, 0x64, 0x65, 0x66, 0x67, 0x68, 0x69, 0x6A, 0x6B, 0x6C, 0x6D, 0x6E, 0x6F,
     0x70, 0x71, 0x72, 0x73, 0x74, 0x75, 0x76, 0x77, 0x78, 0x79, 0x7A, 0x7B, 0x7C, 0x7D, 0x7E, 0x7F,
     0x80, 0x81, 0x82, 0x83, 0x84, 0x85, 0x86, 0x87, 0x88, 0x89, 0x8A, 0x8B, 0x8C, 0x8D, 0x8E, 0x8F,
     0x90, 0x91, 0x92, 0x93, 0x94, 0x95, 0x96, 0x97, 0x98, 0x99, 0x9A, 0x9B, 0x9C, 0x9D, 0x9E, 0x9F,
     0xA0, 0xA1, 0xA2, 0xA3, 0xA4, 0xA5, 0xA6, 0xA7, 0xA8, 0xA9, 0xAA, 0xAB, 0xAC, 0xAD, 0xAE, 0xAF,
     0xB0, 0xB1, 0xB2, 0xB3, 0xB4, 0xB5, 0xB6, 0xB7, 0xB8, 0xB9, 0xBA, 0xBB, 0xBC, 0xBD, 0xBE, 0xBF,
     0xC0, 0xC1, 0xC2, 0xC3, 0xC4, 0xC5, 0xC6, 0xC7, 0xC8, 0xC9, 0xCA, 0xCB, 0xCC, 0xCD, 0xCE, 0xCF,
     0xD0, 0xD1, 0xD2, 0xD3, 0xD4, 0xD5, 0xD6, 0xD7, 0xD8, 0xD9, 0xDA, 0xDB, 0xDC, 0xDD, 0xDE, 0xDF,
     0xE0, 0xE1, 0xE2, 0xE3, 0xE4, 0xE5, 0xE6, 0xE7, 0xE8, 0xE9, 0xEA, 0xEB, 0xEC, 0xED, 0xEE, 0xEF,
     0xF0, 0xF1, 0xF2, 0xF3, 0xF4, 0xF5, 0xF6, 0xF7, 0xF8, 0xF9, 0xFA, 0xFB, 0xFC, 0xFD, 0xFE, 0xFF] :: 32 word list)"
  by (simp add: upt_conv_Cons del: upt_Suc)

lemma table_entry:
  assumes "n < 256"
  shows "crc32_lookup_t1 ! n = (crc_shift 0xEDB88320 ^^ 8) (of_nat n)"
proof -
  have "crc32_lookup_t1 = map (crc_shift 0xEDB88320 ^^ 8) (map of_nat [0..<256])"
    unfolding index_literal table_literal ..
  then have "crc32_lookup_t1 ! n = map (\<lambda>k. (crc_shift 0xEDB88320 ^^ 8) (of_nat k)) [0..<256] ! n"
    by (simp add: comp_def)
  also have "\<dots> = (crc_shift 0xEDB88320 ^^ 8) (of_nat n)"
    using assms by (simp del: upt_Suc)
  finally show ?thesis .
qed

lemma crc_shift_xor: "crc_shift p (x XOR y) = crc_shift p x XOR crc_shift p y"
  by (simp add: crc_shift_def bit_xor_iff ac_simps)

lemma crc_pow_xor:
  "(crc_shift p ^^ k) (x XOR y) = (crc_shift p ^^ k) x XOR (crc_shift p ^^ k) y"
  by (induction k) (simp_all add: crc_shift_xor)

lemma crc_pow_high: "take_bit k x = 0 \<Longrightarrow> (crc_shift p ^^ k) x = drop_bit k x"
proof (induction k)
  case 0
  then show ?case by simp
next
  case (Suc k)
  have nb: "\<not> bit x i" if "i < Suc k" for i
  proof -
    have "bit (take_bit (Suc k) x) i = bit (0 :: 32 word) i" using Suc.prems by simp
    then show ?thesis using that by (simp add: bit_take_bit_iff)
  qed
  have tk: "take_bit k x = 0"
    by (rule bit_eqI) (simp add: bit_take_bit_iff nb)
  show ?case using Suc.IH[OF tk] nb[of k]
    by (simp add: crc_shift_def bit_drop_bit_eq)
qed

lemma split8: "(x :: 32 word) = take_bit 8 x XOR push_bit 8 (drop_bit 8 x)"
  by (rule bit_eqI) (auto simp add: bit_xor_iff bit_take_bit_iff bit_push_bit_iff bit_drop_bit_eq)

lemma crc32_step_ref: "crc32_step b a = crc_ref_byte 0xEDB88320 b a"
proof -
  define x where "x = a XOR ucast b"
  have m: "(0xFF :: 32 word) = mask 8" by (simp add: mask_eq_exp_minus_1)
  have lo: "(a AND 0xFF) XOR ucast b = take_bit 8 x"
    unfolding x_def m
    by (rule bit_eqI)
       (auto simp add: bit_xor_iff bit_and_iff bit_mask_iff bit_take_bit_iff bit_ucast_iff
             dest: bit_imp_le_length)
  have hi: "drop_bit 8 a = drop_bit 8 x"
    unfolding x_def
    by (rule bit_eqI) (auto simp add: bit_xor_iff bit_drop_bit_eq bit_ucast_iff dest: bit_imp_le_length)
  have idx: "unat (take_bit 8 x) < 256"
    using unsigned_take_bit_eq[of 8 x, where ?'a = nat] take_bit_nat_less_exp[of 8 "unat x"] by simp
  have hi8: "(crc_shift 0xEDB88320 ^^ 8) (push_bit 8 (drop_bit 8 x)) = drop_bit 8 x"
  proof -
    have "take_bit 8 (push_bit 8 (drop_bit 8 x)) = 0"
      by (rule bit_eqI) (simp add: bit_take_bit_iff bit_push_bit_iff)
    then have "(crc_shift 0xEDB88320 ^^ 8) (push_bit 8 (drop_bit 8 x))
                 = drop_bit 8 (push_bit 8 (drop_bit 8 x))"
      by (rule crc_pow_high)
    also have "\<dots> = drop_bit 8 x"
      by (rule bit_eqI) (auto simp add: bit_drop_bit_eq bit_push_bit_iff dest: bit_imp_le_length)
    finally show ?thesis .
  qed
  have lo8: "(crc_shift 0xEDB88320 ^^ 8) (take_bit 8 x) = crc32_lookup_t1 ! unat (take_bit 8 x)"
    using table_entry[OF idx] by simp
  have "(crc_shift 0xEDB88320 ^^ 8) x =
        (crc_shift 0xEDB88320 ^^ 8) (take_bit 8 x XOR push_bit 8 (drop_bit 8 x))"
    using split8[of x] by simp
  also have "\<dots> = crc32_lookup_t1 ! unat (take_bit 8 x) XOR drop_bit 8 x"
    by (simp only: crc_pow_xor hi8 lo8)
  finally have ref: "crc_ref_byte 0xEDB88320 b a = crc32_lookup_t1 ! unat (take_bit 8 x) XOR drop_bit 8 x"
    by (simp only: crc_ref_byte_def x_def)
  have "crc32_step b a = crc32_lookup_t1 ! unat (take_bit 8 x) XOR drop_bit 8 x"
    by (simp only: crc32_step_def lo hi)
  with ref show ?thesis by simp
qed

lemma fold_crc32_step_ref: "fold crc32_step bs h = fold (crc_ref_byte 0xEDB88320) bs h"
  by (induction bs arbitrary: h) (simp_all add: crc32_step_ref)

section \<open>Evaluating the backend\<close>

lemmas backend_simps = usb_backend_def usb_note_def malloc_ok_def usb_HandleEvents_def
  irecovery_client_is_usable_def usable_now_def role_is_device_def USB_ROLE_DEVICE_def
  device_zone_nonzero_def

declare send_packets.simps [simp del]

lemma length_dfu_xbuf [simp]: "length dfu_xbuf = 12"
  by (simp add: dfu_xbuf_def)

lemma length_crc_bytes [simp]: "length (crc_bytes h) = 4"
  by (simp add: crc_bytes_def)

lemma trailer_nonempty [simp]: "dfu_xbuf \<noteq> []" "crc_bytes h \<noteq> []"
  by (simp_all add: dfu_xbuf_def crc_bytes_def)

lemmas upload_eval = irecovery_send_buffer_def attached_client_def host_world_def backend_simps
  irecovery_usb_control_transfer_def irecovery_usb_bulk_transfer_def device_to_host_def
  send_packets.simps send_packet_def packet_done_def emit_progress_def dfu_packet_def
  dfu_initiate_def irecovery_get_status_def dfu_status_ok_def dfu_idle_def Let_def

lemmas crc_eval = crc32_ref_def crc32_step_ref crc_ref_byte_def funpow8 crc_shift_def
  dfu_xbuf_def crc_bytes_def

section \<open>A client whose device stays attached\<close>

lemma skip_batch_simps [simp]:
  "usb_role (skip_batch w) = usb_role w"
  "usb_results (skip_batch w) = usb_results w"
  "alloc_fails (skip_batch w) = alloc_fails w"
  "usb_trace (skip_batch w) = usb_trace w"
  "usb_pending (skip_batch w) = tl (usb_pending w)"
  by (simp_all add: skip_batch_def)

lemma quiet_skip [simp]: "quiet h w \<Longrightarrow> quiet h (skip_batch w)"
  by (cases "usb_pending w") (simp_all add: quiet_def skip_batch_def)

lemma deliver_benign:
  "list_all (benign_event (handle c)) es \<Longrightarrow> \<not> role_is_device (usb_role w)
   \<Longrightarrow> deliver_events es c w = (c, w)"
proof (induction es)
  case Nil
  then show ?case by simp
next
  case (Cons e es)
  then show ?case by (cases e) simp_all
qed

lemma HandleEvents_quiet:
  assumes "quiet (handle c) w" and "\<not> role_is_device (usb_role w)"
  shows "usb_HandleEvents c w = (c, skip_batch w)"
proof (cases "usb_pending w")
  case Nil
  then show ?thesis by (simp add: usb_HandleEvents_def skip_batch_def)
next
  case (Cons b bs)
  with assms have "list_all (benign_event (handle c)) b" by (simp add: quiet_def)
  then show ?thesis using assms(2) Cons
    by (simp add: usb_HandleEvents_def skip_batch_def deliver_benign)
qed

lemma usable_now_handle: "usable_now c w \<longleftrightarrow> handle c \<noteq> 0 \<and> \<not> role_is_device (usb_role w)"
  by (auto simp: usable_now_def device_zone_nonzero_def)

lemma is_usable_quiet:
  assumes "quiet (handle c) w" and "\<not> role_is_device (usb_role w)" and "handle c \<noteq> 0"
  shows "irecovery_client_is_usable c w True = (True, c, skip_batch w)"
  using assms by (simp add: irecovery_client_is_usable_def HandleEvents_quiet usable_now_handle)

lemma control_transfer_quiet:
  assumes "quiet (handle c) w" and "\<not> role_is_device (usb_role w)" and "handle c \<noteq> 0"
    and "\<not> device_to_host rt"
  shows "irecovery_usb_control_transfer c w rt rq v i d l =
     (case usb_results w of
        [] \<Rightarrow> (IRECOVERY_E_USB_UPLOAD_FAILED, d, c,
               (skip_batch w)\<lparr>usb_trace := usb_trace w @ [ControlTransfer (handle c) rt rq v i l (take (unat l) d)]\<rparr>)
      | r # rs \<Rightarrow>
          (if usb_error r \<noteq> 0 then IRECOVERY_E_USB_UPLOAD_FAILED else int (min (transferred r) (unat l)), d, c,
           (skip_batch w)\<lparr>usb_results := rs,
              usb_trace := usb_trace w @ [ControlTransfer (handle c) rt rq v i l (take (unat l) d)]\<rparr>))"
  using assms
  by (simp add: irecovery_usb_control_transfer_def is_usable_quiet usb_backend_def usb_note_def
        split: list.splits)

section \<open>Admission under the one-connection limit (C2)\<close>

text \<open>
  C2. The claim: under the one-connection-limit policy, once a supported device has been
  adopted, a later device-enabled event for another device is ignored. The handler tests
  \<open>num_connections == 1\<close>, but nothing in the source ever assigns \<open>num_connections\<close>, so it
  keeps the zero that \<open>calloc\<close> gave it: for a client made by \<open>irecovery_client_new\<close> with
  this policy, enabled(1) then enabled(2), both supported DFU devices, ends with device 2
  adopted in place of device 1.
\<close>

theorem one_connection_limit_adopts_second_device:
  "(case irecovery_client_new IRECOVERY_CLIENT_DEVICE_POLICY_ONE_CONNECTION_LIMIT 0
           (host_world [[USB_DEVICE_ENABLED_EVENT 1], [USB_DEVICE_ENABLED_EVENT 2]]
              [Usb_Result 0 0 [], Usb_Result 0 18 (apple_descriptor 0x27 0x12),
               Usb_Result 0 18 (apple_descriptor 0x27 0x12)]) of
      (err, None, w) \<Rightarrow> False
    | (err, Some client, w) \<Rightarrow>
        (let (client1, w1) = usb_HandleEvents client w;
             (client2, w2) = usb_HandleEvents client1 w1
         in err = IRECOVERY_E_SUCCESS \<and> handle client1 = 1 \<and> num_connections client1 = 0
            \<and> handle client2 = 2 \<and> num_connections client2 = 0
            \<and> usb_trace w2 = [Init, GetDescriptor 1, GetDescriptor 2]))"
  by (simp add: irecovery_client_new_def host_world_def backend_simps adopt_device_def
        irecovery_device_is_supported_def apple_descriptor_def idVendor_def idProduct_def le16_def)

section \<open>Bulk frames of a recovery upload (C5)\<close>

text \<open>
  C5. The claim: a recovery-mode upload of \<open>L\<close> bytes in which every transfer succeeds sends
  \<open>\<lceil>L / 0x8000\<rceil>\<close> bulk frames on endpoint \<open>0x04\<close>, and one more zero-length frame exactly
  when \<open>L mod 512 = 0\<close>. \<open>irecovery_usb_bulk_transfer\<close> returns the number of bytes
  transferred, and \<open>irecovery_send_buffer\<close> stores that in \<open>error\<close> and returns it when it is
  not \<open>IRECOVERY_E_SUCCESS\<close>: after the first packet that went through. For \<open>L = 512\<close> on a
  device in recovery mode that accepts every transfer, one bulk frame is sent, no zero-length
  frame follows (its scripted result is still unused), and the function returns 512.
\<close>

theorem recovery_upload_stops_after_first_packet:
  "irecovery_send_buffer (attached_client IRECOVERY_K_RECOVERY_MODE_2 None)
     (host_world [] [Usb_Result 0 0 [], Usb_Result 0 512 [], Usb_Result 0 0 []])
     (Some (replicate 512 0)) 0
   = (512, attached_client IRECOVERY_K_RECOVERY_MODE_2 None,
      \<lparr>usb_role = 0, usb_pending = [], usb_results = [Usb_Result 0 0 []], alloc_fails = [],
       usb_trace = [ControlTransfer 1 0x41 0 0 0 0 [], Transfer 1 0x04 (replicate 512 0)]\<rparr>)"
  by (simp add: upload_eval)


section \<open>Length checks of a command (C8)\<close>

text \<open>
  C8. For a usable client (a handle is set, the calculator is the host, the device stays
  attached during the call) whose mode is one of the four recovery modes,
  \<open>irecovery_send_command\<close> sends a command of length 255 with its terminating NUL in one
  control transfer \<open>0x40\<close> with \<open>wLength = 256\<close> and returns success when that transfer
  succeeds; a command of 256 characters or more fails with \<open>IRECOVERY_E_COMMAND_TOO_LONG\<close>,
  an empty one with \<open>IRECOVERY_E_NO_COMMAND\<close>, both without any transfer; in any other
  mode the call fails with \<open>IRECOVERY_E_SERVICE_NOT_AVAILABLE\<close>.
\<close>

theorem send_command_boundaries:
  assumes "handle client \<noteq> 0" and "\<not> role_is_device (usb_role w)" and "quiet (handle client) w"
  shows "(recovery_mode_id (mode client) \<and> length cmd = 255 \<longrightarrow>
           (\<forall>r rs. usb_results w = r # rs \<longrightarrow>
              irecovery_send_command client w (Some cmd) =
                (if usb_error r = 0 then IRECOVERY_E_SUCCESS else IRECOVERY_E_USB_UPLOAD_FAILED, client,
                 (skip_batch (skip_batch (skip_batch w)))\<lparr>usb_results := rs,
                    usb_trace := usb_trace w @
                      [ControlTransfer (handle client) 0x40 (if irecovery_is_breq_command cmd then 1 else 0)
                         0 0 256 (c_bytes cmd)]\<rparr>)))
       \<and> (recovery_mode_id (mode client) \<and> length cmd \<ge> 256 \<longrightarrow>
            irecovery_send_command client w (Some cmd) = (IRECOVERY_E_COMMAND_TOO_LONG, client, skip_batch w))
       \<and> (recovery_mode_id (mode client) \<and> length cmd = 0 \<longrightarrow>
            irecovery_send_command client w (Some cmd) = (IRECOVERY_E_NO_COMMAND, client, skip_batch (skip_batch w)))
       \<and> (\<not> recovery_mode_id (mode client) \<longrightarrow>
            irecovery_send_command client w (Some cmd) = (IRECOVERY_E_SERVICE_NOT_AVAILABLE, client, skip_batch w))"
  using assms
  by (simp add: irecovery_send_command_def irecovery_send_command_breq_def irecovery_send_command_raw_def
        is_usable_quiet control_transfer_quiet device_to_host_def c_bytes_def)



theorem send_command_boundaries_witness:
  "irecovery_send_command (attached_client IRECOVERY_K_RECOVERY_MODE_2 None)
       (host_world [[USB_DEVICE_DISABLED_EVENT 7]] [Usb_Result 0 256 []])
       (Some (replicate 255 (CHR ''a'')))
     = (IRECOVERY_E_SUCCESS, attached_client IRECOVERY_K_RECOVERY_MODE_2 None,
        \<lparr>usb_role = 0, usb_pending = [], usb_results = [], alloc_fails = [],
         usb_trace = [ControlTransfer 1 0x40 0 0 0 256 (c_bytes (replicate 255 (CHR ''a'')))]\<rparr>)
   \<and> fst (irecovery_send_command (attached_client IRECOVERY_K_RECOVERY_MODE_2 None)
           (host_world [[USB_DEVICE_DISABLED_EVENT 7]] [Usb_Result 0 256 []])
           (Some (replicate 256 (CHR ''a'')))) = IRECOVERY_E_COMMAND_TOO_LONG
   \<and> fst (irecovery_send_command (attached_client IRECOVERY_K_RECOVERY_MODE_2 None)
           (host_world [[USB_DEVICE_DISABLED_EVENT 7]] [Usb_Result 0 256 []])
           (Some [])) = IRECOVERY_E_NO_COMMAND
   \<and> fst (irecovery_send_command (attached_client IRECOVERY_K_DFU_MODE None)
           (host_world [[USB_DEVICE_DISABLED_EVENT 7]] [Usb_Result 0 256 []])
           (Some ''go'')) = IRECOVERY_E_SERVICE_NOT_AVAILABLE"
proof -
  let ?w = "host_world [[USB_DEVICE_DISABLED_EVENT 7]] [Usb_Result 0 256 []]"
  have h: "handle (attached_client m None) \<noteq> 0" "\<not> role_is_device (usb_role ?w)"
    "quiet (handle (attached_client m None)) ?w" for m
    by (simp_all add: attached_client_def host_world_def role_is_device_def USB_ROLE_DEVICE_def quiet_def)
  have rec: "recovery_mode_id (mode (attached_client IRECOVERY_K_RECOVERY_MODE_2 None))"
    "\<not> recovery_mode_id (mode (attached_client IRECOVERY_K_DFU_MODE None))"
    by (simp_all add: attached_client_def recovery_mode_id_def)
  have nb: "\<not> irecovery_is_breq_command (replicate 255 (CHR ''a''))"
    by (auto simp add: irecovery_is_breq_command_def dest!: arg_cong[where f = length])
  show ?thesis
    using send_command_boundaries[OF h, of IRECOVERY_K_RECOVERY_MODE_2 "replicate 255 (CHR ''a'')"] nb
          send_command_boundaries[OF h, of IRECOVERY_K_RECOVERY_MODE_2 "replicate 256 (CHR ''a'')"]
          send_command_boundaries[OF h, of IRECOVERY_K_RECOVERY_MODE_2 "[]"]
          send_command_boundaries[OF h, of IRECOVERY_K_DFU_MODE "''go''"] rec
    by (simp add: host_world_def skip_batch_def irecovery_is_breq_command_def attached_client_def)
qed

section \<open>The out-parameter of getenv (C10)\<close>

lemma zero_padded_256:
  fixes p :: "byte list"
  shows "(take 255 p @ replicate (256 - min (length p) 255) 0) ! 255 = 0"
  by (simp add: nth_append)

lemma control_transfer_in_buffer:
  assumes "irecovery_usb_control_transfer c w rt rq v i (replicate 256 0) 255 = (ret, buf, c', w')"
  shows "length buf = 256 \<and> buf ! 255 = 0"
  using assms
  by (auto simp add: irecovery_usb_control_transfer_def Let_def zero_padded_256
           split: prod.splits if_splits)

lemma nul_terminated_256:
  fixes response :: "byte list"
  assumes "length response = 256" and "response ! 255 = 0"
  shows "length (takeWhile (\<lambda>x. x \<noteq> 0) response) \<le> 255"
proof (rule ccontr)
  assume "\<not> length (takeWhile (\<lambda>x. x \<noteq> 0) response) \<le> 255"
  then have "length (takeWhile (\<lambda>x. x \<noteq> 0) response) = length response"
    using length_takeWhile_le[of "\<lambda>x. x \<noteq> 0" response] assms(1) by simp
  then have "takeWhile (\<lambda>x. x \<noteq> 0) response = response"
    using takeWhile_eq_take[of "\<lambda>x. x \<noteq> 0" response] by simp
  then have "\<forall>x\<in>set response. x \<noteq> 0"
    by (simp add: takeWhile_eq_all_conv)
  moreover have "response ! 255 \<in> set response"
    using assms(1) by simp
  ultimately show False using assms(2) by auto
qed

lemma getenv_result:
  assumes "irecovery_getenv client w variable value = (ret, out, c', w')"
  shows "(ret = IRECOVERY_E_SUCCESS \<and> value = Some None \<and>
           (\<exists>response. out = Some (Some response) \<and> length response = 256 \<and> response ! 255 = 0))
         \<or> (ret \<noteq> IRECOVERY_E_SUCCESS \<and> out = value)"
proof (cases "\<exists>var. variable = Some var \<and> value = Some None")
  case False
  then show ?thesis using assms
    by (auto simp add: irecovery_getenv_def split: option.splits)
next
  case True
  then obtain var where var: "variable = Some var" "value = Some None" by blast
  obtain error c1 w1 where
    raw: "irecovery_send_command_raw client w (Some (take 254 (''getenv '' @ var))) 0 = (error, c1, w1)"
    by (cases "irecovery_send_command_raw client w (Some (take 254 (''getenv '' @ var))) 0") auto
  obtain ok w2 where m: "malloc_ok w1 = (ok, w2)" by (cases "malloc_ok w1") auto
  obtain ret2 response c3 w3 where
    ct: "irecovery_usb_control_transfer c1 w2 0xC0 0 0 0 (replicate 256 0) 255 = (ret2, response, c3, w3)"
    by (cases "irecovery_usb_control_transfer c1 w2 0xC0 0 0 0 (replicate 256 0) 255") auto
  have unfolded: "irecovery_getenv client w variable value =
      (if error \<noteq> IRECOVERY_E_SUCCESS then (error, value, c1, w1)
       else if \<not> ok then (IRECOVERY_E_NO_MEMORY, value, c1, w2)
       else if ret2 < 0 then (ret2, value, c3, w3)
       else (IRECOVERY_E_SUCCESS, Some (Some response), c3, w3))"
    using raw m ct by (simp add: irecovery_getenv_def var)
  show ?thesis
    using assms control_transfer_in_buffer[OF ct] var(2) unfolding unfolded
    by (auto split: if_splits)
qed


text \<open>
  C10. A call of \<open>irecovery_getenv\<close> whose out-parameter points to a non-NULL value fails
  with \<open>IRECOVERY_E_BAD_PTR\<close>. When the call returns success, the out-parameter pointed to
  NULL before (the buffer is the one the call allocated) and now holds the 256-byte response
  buffer, whose last byte is still the zero of \<open>calloc\<close>, so the string in it is
  NUL-terminated and at most 255 bytes long. When the call returns an error, the
  out-parameter is what it was. This holds for every client, backend script and variable.
\<close>

theorem getenv_out_parameter:
  "fst (irecovery_getenv client w variable (Some (Some b))) = IRECOVERY_E_BAD_PTR
   \<and> (fst (irecovery_getenv client w variable value) = IRECOVERY_E_SUCCESS \<longrightarrow>
        value = Some None \<and>
        (\<exists>response. fst (snd (irecovery_getenv client w variable value)) = Some (Some response)
            \<and> length response = 256 \<and> response ! 255 = 0
            \<and> length (takeWhile (\<lambda>x. x \<noteq> 0) response) \<le> 255))
   \<and> (fst (irecovery_getenv client w variable value) \<noteq> IRECOVERY_E_SUCCESS \<longrightarrow>
        fst (snd (irecovery_getenv client w variable value)) = value)"
proof -
  obtain ret out c' w' where r: "irecovery_getenv client w variable value = (ret, out, c', w')"
    by (cases "irecovery_getenv client w variable value") auto
  have bad: "fst (irecovery_getenv client w variable (Some (Some b))) = IRECOVERY_E_BAD_PTR"
    by (simp add: irecovery_getenv_def split: option.splits)
  show ?thesis
    using getenv_result[OF r] bad nul_terminated_256 unfolding r by auto
qed


theorem getenv_out_parameter_witness:
  "fst (irecovery_getenv (attached_client IRECOVERY_K_RECOVERY_MODE_2 None)
          (host_world [] [Usb_Result 0 9 [], Usb_Result 0 3 [0x61, 0x62, 0x63]])
          (Some ''x'') (Some None)) = IRECOVERY_E_SUCCESS
   \<and> (\<exists>response.
         fst (snd (irecovery_getenv (attached_client IRECOVERY_K_RECOVERY_MODE_2 None)
                     (host_world [] [Usb_Result 0 9 [], Usb_Result 0 3 [0x61, 0x62, 0x63]])
                     (Some ''x'') (Some None))) = Some (Some response)
         \<and> length response = 256 \<and> response ! 255 = 0
         \<and> length (takeWhile (\<lambda>x. x \<noteq> 0) response) \<le> 255)
   \<and> fst (snd (irecovery_getenv (attached_client IRECOVERY_K_DFU_MODE None)
                 (host_world [] []) (Some ''x'') (Some None))) = Some None"
proof -
  have ok: "fst (irecovery_getenv (attached_client IRECOVERY_K_RECOVERY_MODE_2 None)
          (host_world [] [Usb_Result 0 9 [], Usb_Result 0 3 [0x61, 0x62, 0x63]])
          (Some ''x'') (Some None)) = IRECOVERY_E_SUCCESS"
    by (simp add: irecovery_getenv_def irecovery_send_command_raw_def irecovery_usb_control_transfer_def
          attached_client_def host_world_def backend_simps recovery_mode_id_def device_to_host_def
          c_bytes_def Let_def)
  have err: "fst (irecovery_getenv (attached_client IRECOVERY_K_DFU_MODE None)
                 (host_world [] []) (Some ''x'') (Some None)) \<noteq> IRECOVERY_E_SUCCESS"
    by (simp add: irecovery_getenv_def irecovery_send_command_raw_def
          attached_client_def host_world_def backend_simps recovery_mode_id_def)
  show ?thesis
    using ok err
      getenv_out_parameter[of "attached_client IRECOVERY_K_RECOVERY_MODE_2 None"
        "host_world [] [Usb_Result 0 9 [], Usb_Result 0 3 [0x61, 0x62, 0x63]]" "Some ''x''" "[]" "Some None"]
      getenv_out_parameter[of "attached_client IRECOVERY_K_DFU_MODE None"
        "host_world [] []" "Some ''x''" "[]" "Some None"]
    by simp
qed


section \<open>Download requests of a DFU upload\<close>

text \<open>What each operation adds to the download requests of the trace: only a control
  transfer \<open>0x21\<close>/\<open>1\<close> with data adds one, whatever the events and results are.\<close>

lemma downloaded_simps [simp]:
  "downloaded (w\<lparr>usb_pending := p\<rparr>) = downloaded w"
  "downloaded (w\<lparr>usb_results := r\<rparr>) = downloaded w"
  "downloaded (w\<lparr>usb_role := ro\<rparr>) = downloaded w"
  "downloaded (w\<lparr>alloc_fails := a\<rparr>) = downloaded w"
  by (simp_all add: downloaded_def)

lemma downloaded_note:
  "downloaded (usb_note call w) = downloaded w @ (if download_data call = [] then [] else [download_data call])"
  by (simp add: downloaded_def usb_note_def)

lemma downloaded_backend:
  "usb_backend call w = (r, w') \<Longrightarrow>
   downloaded w' = downloaded w @ (if download_data call = [] then [] else [download_data call])"
  by (auto simp add: usb_backend_def downloaded_note split: list.splits)

lemma downloaded_malloc: "malloc_ok w = (ok, w') \<Longrightarrow> downloaded w' = downloaded w"
  by (auto simp add: malloc_ok_def split: list.splits)

lemma downloaded_supported:
  "irecovery_device_is_supported d w = (ok, dd, w') \<Longrightarrow> downloaded w' = downloaded w"
  by (auto simp add: irecovery_device_is_supported_def Let_def split: if_splits prod.splits
           dest!: downloaded_backend)

lemma downloaded_adopt:
  "adopt_device d c w = (e, c', w') \<Longrightarrow> downloaded w' = downloaded w"
  by (auto simp add: adopt_device_def Let_def split: if_splits prod.splits dest!: downloaded_supported)

lemma downloaded_handler:
  "usb_event_handler ev c w = (e, c', w') \<Longrightarrow> downloaded w' = downloaded w"
  by (cases ev)
     (auto split: if_splits prod.splits irecovery_connection_policy_t.splits
           dest!: downloaded_adopt downloaded_backend)

lemma downloaded_deliver:
  "deliver_events es c w = (c', w') \<Longrightarrow> downloaded w' = downloaded w"
proof (induction es arbitrary: c w)
  case Nil
  then show ?case by simp
next
  case (Cons ev es)
  obtain e c1 w1 where
    h: "usb_event_handler ev c (case ev of USB_ROLE_CHANGED_EVENT r \<Rightarrow> w\<lparr>usb_role := r\<rparr> | _ \<Rightarrow> w) = (e, c1, w1)"
    by (cases "usb_event_handler ev c (case ev of USB_ROLE_CHANGED_EVENT r \<Rightarrow> w\<lparr>usb_role := r\<rparr> | _ \<Rightarrow> w)") auto
  have "downloaded w1 = downloaded (case ev of USB_ROLE_CHANGED_EVENT r \<Rightarrow> w\<lparr>usb_role := r\<rparr> | _ \<Rightarrow> w)"
    by (rule downloaded_handler[OF h])
  also have "\<dots> = downloaded w" by (cases ev) simp_all
  finally show ?case using Cons.IH[of c1 w1] Cons.prems h by simp
qed

lemma downloaded_HandleEvents:
  "usb_HandleEvents c w = (c', w') \<Longrightarrow> downloaded w' = downloaded w"
  by (auto simp add: usb_HandleEvents_def split: list.splits dest!: downloaded_deliver)

lemma downloaded_is_usable:
  "irecovery_client_is_usable c w b = (u, c', w') \<Longrightarrow> downloaded w' = downloaded w"
  by (auto simp add: irecovery_client_is_usable_def split: if_splits prod.splits
           dest!: downloaded_HandleEvents)

text \<open>A control transfer that is no download request with data.\<close>

lemma downloaded_control_other:
  assumes "irecovery_usb_control_transfer c w rt rq v i d l = (ret, d', c', w')"
    and "rt \<noteq> 0x21 \<or> rq \<noteq> 1 \<or> device_to_host rt \<or> take (unat l) d = []"
  shows "downloaded w' = downloaded w"
  using assms
  by (auto simp add: irecovery_usb_control_transfer_def Let_def split: if_splits prod.splits
           dest!: downloaded_is_usable downloaded_backend)

lemma downloaded_control_download:
  assumes "irecovery_usb_control_transfer c w 0x21 1 v i d l = (ret, d', c', w')"
    and "take (unat l) d \<noteq> []"
  shows "(ret < 0 \<and> downloaded w' = downloaded w) \<or> downloaded w' = downloaded w @ [take (unat l) d]"
  using assms
  by (auto simp add: irecovery_usb_control_transfer_def Let_def device_to_host_def
           split: if_splits prod.splits
           dest!: downloaded_is_usable downloaded_backend)

lemma downloaded_get_status:
  "irecovery_get_status c w = (e, s, c', w') \<Longrightarrow> downloaded w' = downloaded w"
  by (auto simp add: irecovery_get_status_def Let_def split: if_splits prod.splits
           dest!: downloaded_is_usable downloaded_control_other)

lemma downloaded_poll_status:
  "poll_status n s c w = (s', c', w') \<Longrightarrow> downloaded w' = downloaded w"
proof (induction n arbitrary: s c w)
  case 0
  then show ?case by simp
next
  case (Suc n)
  obtain e s1 c1 w1 where g: "irecovery_get_status c w = (e, s1, c1, w1)"
    by (cases "irecovery_get_status c w") auto
  show ?case
    using Suc.prems Suc.IH[of s1 c1 w1] downloaded_get_status[OF g] g
    by (auto split: if_splits)
qed

lemma downloaded_dfu_initiate:
  "dfu_initiate c w = (e, c', w') \<Longrightarrow> downloaded w' = downloaded w"
  by (auto simp add: dfu_initiate_def Let_def split: if_splits prod.splits
           dest!: downloaded_control_other)


lemma unat_small [simp]: "n < 65536 \<Longrightarrow> unat (of_nat n :: 16 word) = n"
  by (simp add: unat_of_nat)

lemma dfu_packet_plain:
  assumes "dfu_packet ps packets buf i size0 h1 count c w = res"
    and "i + 1 \<noteq> packets"
    and "chunk = take size0 (drop (i * ps) buf)" and "chunk \<noteq> []" and "size0 \<le> 2048"
  shows "\<exists>ret c' w'. res = Inr (fold crc32_step chunk h1, count, size0, ret, c', w')
           \<and> ((ret < 0 \<and> downloaded w' = downloaded w) \<or> downloaded w' = downloaded w @ [chunk])"
proof -
  obtain ret d c' w' where
    ct: "irecovery_usb_control_transfer c w 0x21 1 (of_nat i) 0 (drop (i * ps) buf) (of_nat size0)
           = (ret, d, c', w')"
    by (cases "irecovery_usb_control_transfer c w 0x21 1 (of_nat i) 0 (drop (i * ps) buf) (of_nat size0)") auto
  have sl: "take (unat (of_nat size0 :: 16 word)) (drop (i * ps) buf) = chunk"
    using assms(3,5) by simp
  have "res = Inr (fold crc32_step chunk h1, count, size0, ret, c', w')"
    using assms(1,2,3) ct by (simp add: dfu_packet_def)
  then show ?thesis
    using downloaded_control_download[OF ct] sl assms(4) by auto
qed

lemma dfu_packet_last_fits:
  assumes "dfu_packet ps packets buf i size0 h1 count c w = res"
    and "i + 1 = packets" and "\<not> size0 + 16 > ps" and "ps \<le> 2048"
    and "chunk = take size0 (drop (i * ps) buf)" and "length chunk = size0"
    and "trailer = dfu_xbuf @ crc_bytes (fold crc32_step dfu_xbuf (fold crc32_step chunk h1))"
  shows "(\<exists>c' w'. res = Inl (IRECOVERY_E_NO_MEMORY, c', w') \<and> downloaded w' = downloaded w)
       \<or> (\<exists>ret c' w'. res = Inr (fold crc32_step dfu_xbuf (fold crc32_step chunk h1), count, size0 + 16, ret, c', w')
           \<and> ((ret < 0 \<and> downloaded w' = downloaded w) \<or> downloaded w' = downloaded w @ [chunk @ trailer]))"
proof -
  obtain ok w2 where m: "malloc_ok w = (ok, w2)" by (cases "malloc_ok w") auto
  obtain ret d c' w' where
    ct: "irecovery_usb_control_transfer c w2 0x21 1 (of_nat i) 0 (chunk @ trailer) (of_nat (size0 + 16))
           = (ret, d, c', w')"
    by (cases "irecovery_usb_control_transfer c w2 0x21 1 (of_nat i) 0 (chunk @ trailer) (of_nat (size0 + 16))") auto
  have "unat (of_nat (size0 + 16) :: 16 word) = size0 + 16"
    using assms(3,4) by (intro unat_small) simp
  then have sl: "take (unat (of_nat (size0 + 16) :: 16 word)) (chunk @ trailer) = chunk @ trailer"
    using assms(6,7) by simp
  have ne: "chunk @ trailer \<noteq> []" using assms(7) by (auto simp: dfu_xbuf_def)
  note d = downloaded_control_download[OF ct, unfolded sl, OF ne]
  show ?thesis
  proof (cases ok)
    case False
    then have "res = Inl (IRECOVERY_E_NO_MEMORY, c, w2)"
      using assms(1,2,3) m by (simp add: dfu_packet_def)
    then show ?thesis using downloaded_malloc[OF m] by simp
  next
    case True
    then have "res = Inr (fold crc32_step dfu_xbuf (fold crc32_step chunk h1), count, size0 + 16, ret, c', w')"
      using assms(1,2,3,5,7) m ct by (simp add: dfu_packet_def)
    then show ?thesis
      using d downloaded_malloc[OF m] by auto
  qed
qed

lemma dfu_packet_last_split:
  assumes "dfu_packet ps packets buf i size0 h1 count c w = res"
    and "i + 1 = packets" and "size0 + 16 > ps" and "size0 \<le> 2048"
    and "chunk = take size0 (drop (i * ps) buf)" and "chunk \<noteq> []"
    and "trailer = dfu_xbuf @ crc_bytes (fold crc32_step dfu_xbuf (fold crc32_step chunk h1))"
  shows "(\<exists>r c' w'. res = Inl (r, c', w') \<and> r \<noteq> 0
              \<and> (downloaded w' = downloaded w \<or> downloaded w' = downloaded w @ [chunk]))
       \<or> (\<exists>ret c' w'. res = Inr (fold crc32_step dfu_xbuf (fold crc32_step chunk h1), count + size0, 16, ret, c', w')
           \<and> ((ret < 0 \<and> downloaded w' = downloaded w @ [chunk])
               \<or> downloaded w' = downloaded w @ [chunk, trailer]))"
proof -
  obtain ret1 d1 c1 w1 where
    ct1: "irecovery_usb_control_transfer c w 0x21 1 (of_nat i) 0 (drop (i * ps) buf) (of_nat size0)
           = (ret1, d1, c1, w1)"
    by (cases "irecovery_usb_control_transfer c w 0x21 1 (of_nat i) 0 (drop (i * ps) buf) (of_nat size0)") auto
  have sl: "take (unat (of_nat size0 :: 16 word)) (drop (i * ps) buf) = chunk"
    using assms(4,5) by simp
  note d1 = downloaded_control_download[OF ct1, unfolded sl, OF assms(6)]
  show ?thesis
  proof (cases "ret1 = int size0")
    case False
    then have "res = Inl (IRECOVERY_E_USB_UPLOAD_FAILED, c1, w1)"
      using assms(1,2,3) ct1 by (simp add: dfu_packet_def)
    then show ?thesis using d1 by auto
  next
    case True
    then have dl1: "downloaded w1 = downloaded w @ [chunk]" using d1 by auto
    obtain ok w2 where m: "malloc_ok w1 = (ok, w2)" by (cases "malloc_ok w1") auto
    obtain ret d c' w' where
      ct: "irecovery_usb_control_transfer c1 w2 0x21 1 (of_nat i) 0 trailer 16 = (ret, d, c', w')"
      by (cases "irecovery_usb_control_transfer c1 w2 0x21 1 (of_nat i) 0 trailer 16") auto
    have st: "take (unat (16 :: 16 word)) trailer = trailer" using assms(7) by simp
    have ne: "trailer \<noteq> []" using assms(7) by (auto simp: dfu_xbuf_def)
    note d2 = downloaded_control_download[OF ct, unfolded st, OF ne]
    show ?thesis
    proof (cases ok)
      case False
      then have "res = Inl (IRECOVERY_E_NO_MEMORY, c1, w2)"
        using assms(1,2,3) ct1 True m by (simp add: dfu_packet_def)
      then show ?thesis using downloaded_malloc[OF m] dl1 by simp
    next
      case ok: True
      then have "res = Inr (fold crc32_step dfu_xbuf (fold crc32_step chunk h1), count + size0, 16, ret, c', w')"
        using assms(1,2,3,5,7) ct1 True m ct by (simp add: dfu_packet_def)
      then show ?thesis using d2 downloaded_malloc[OF m] dl1 by auto
    qed
  qed
qed


lemma packet_done_dfu:
  assumes "packet_done False (h1a, count1, size1, bytes1, error, c1, w1) = res"
  shows "(\<exists>r c' w'. res = Inl (r, c', w') \<and> r \<noteq> 0 \<and> downloaded w' = downloaded w1)
       \<or> (bytes1 = int size1 \<and>
           (\<exists>c' w'. res = Inr (h1a, count1 + size1, bytes1, c', w') \<and> downloaded w' = downloaded w1))"
proof -
  obtain e s c2 w2 where g: "irecovery_get_status c1 w1 = (e, s, c2, w2)"
    by (cases "irecovery_get_status c1 w1") auto
  obtain s3 c3 w3 where p: "poll_status 20 s c2 w2 = (s3, c3, w3)"
    by (cases "poll_status 20 s c2 w2") auto
  note dg = downloaded_get_status[OF g]
  note dp = downloaded_poll_status[OF p]
  have dn: "downloaded (emit_progress cl n wx) = downloaded wx" for cl wx n
    by (simp add: emit_progress_def downloaded_note Let_def split: option.splits)
  show ?thesis
    using assms g p dg dp
    by (auto simp add: packet_done_def Let_def dn split: if_splits)
qed

lemma send_packet_dfu:
  assumes "send_packet False ps packets last_size buf i (h1, count, bytes, c, w) = res"
    and "chunk = take (if i + 1 < packets then ps else last_size) (drop (i * ps) buf)"
    and "length chunk = (if i + 1 < packets then ps else last_size)"
    and "chunk \<noteq> []" and "ps \<le> 2048" and "last_size \<le> ps" and "i < packets"
  shows "(\<exists>r c' w' cs. res = Inl (r, c', w') \<and> r \<noteq> 0 \<and> downloaded w' = downloaded w @ cs
             \<and> prefix cs (packet_chunks ps packets i chunk h1))
       \<or> (\<exists>count' bytes' c' w'.
             res = Inr (if i + 1 = packets then fold crc32_step dfu_xbuf (fold crc32_step chunk h1)
                        else fold crc32_step chunk h1, count', bytes', c', w')
             \<and> downloaded w' = downloaded w @ packet_chunks ps packets i chunk h1)"
proof -
  define size0 where "size0 = (if i + 1 < packets then ps else last_size)"
  define dp where "dp = dfu_packet ps packets buf i size0 h1 count c w"
  have res: "res = (case dp of Inl r \<Rightarrow> Inl r
               | Inr (h1a, count1, size1, ret, client1, w1) \<Rightarrow>
                   packet_done False (h1a, count1, size1, ret, IRECOVERY_E_SUCCESS, client1, w1))"
    using assms(1) by (simp add: send_packet_def size0_def dp_def)
  have ch: "chunk = take size0 (drop (i * ps) buf)" "length chunk = size0" "size0 \<le> 2048"
    using assms(2,3,5,6) by (auto simp: size0_def)
  consider (plain) "i + 1 \<noteq> packets" | (fits) "i + 1 = packets" "\<not> size0 + 16 > ps"
    | (split) "i + 1 = packets" "size0 + 16 > ps" by blast
  then show ?thesis
  proof cases
    case plain
    then have pc: "packet_chunks ps packets i chunk h1 = [chunk]" by (simp add: packet_chunks_def)
    from dfu_packet_plain[OF dp_def[symmetric] plain ch(1) assms(4) ch(3)]
    obtain ret c1 w1 where
      d: "dp = Inr (fold crc32_step chunk h1, count, size0, ret, c1, w1)"
         "(ret < 0 \<and> downloaded w1 = downloaded w) \<or> downloaded w1 = downloaded w @ [chunk]"
      by blast
    have r2: "res = packet_done False (fold crc32_step chunk h1, count, size0, ret, IRECOVERY_E_SUCCESS, c1, w1)"
      using res d(1) by simp
    show ?thesis
      using packet_done_dfu[OF r2[symmetric]] d(2) plain pc
      by (auto simp add: prefix_def)
  next
    case fits
    then have pc: "packet_chunks ps packets i chunk h1 =
        [chunk @ dfu_xbuf @ crc_bytes (fold crc32_step dfu_xbuf (fold crc32_step chunk h1))]"
      using ch(2) by (simp add: packet_chunks_def)
    from dfu_packet_last_fits[OF dp_def[symmetric] fits assms(5) ch(1) ch(2) refl]
    consider (nomem) c1 w1 where "dp = Inl (IRECOVERY_E_NO_MEMORY, c1, w1)" "downloaded w1 = downloaded w"
      | (sent) ret c1 w1 where
         "dp = Inr (fold crc32_step dfu_xbuf (fold crc32_step chunk h1), count, size0 + 16, ret, c1, w1)"
         "(ret < 0 \<and> downloaded w1 = downloaded w) \<or>
          downloaded w1 = downloaded w @ [chunk @ dfu_xbuf @ crc_bytes (fold crc32_step dfu_xbuf (fold crc32_step chunk h1))]"
      by blast
    then show ?thesis
    proof cases
      case nomem
      then show ?thesis using res by (auto simp add: prefix_def)
    next
      case sent
      have r2: "res = packet_done False (fold crc32_step dfu_xbuf (fold crc32_step chunk h1), count,
                         size0 + 16, ret, IRECOVERY_E_SUCCESS, c1, w1)"
        using res sent(1) by simp
      show ?thesis
        using packet_done_dfu[OF r2[symmetric]] sent(2) fits(1) pc
        by (auto simp add: prefix_def)
    qed
  next
    case split
    then have pc: "packet_chunks ps packets i chunk h1 =
        [chunk, dfu_xbuf @ crc_bytes (fold crc32_step dfu_xbuf (fold crc32_step chunk h1))]"
      using ch(2) by (simp add: packet_chunks_def)
    from dfu_packet_last_split[OF dp_def[symmetric] split ch(3) ch(1) assms(4) refl]
    consider (failed) r c1 w1 where "dp = Inl (r, c1, w1)" "r \<noteq> 0"
         "downloaded w1 = downloaded w \<or> downloaded w1 = downloaded w @ [chunk]"
      | (sent) ret c1 w1 where
         "dp = Inr (fold crc32_step dfu_xbuf (fold crc32_step chunk h1), count + size0, 16, ret, c1, w1)"
         "(ret < 0 \<and> downloaded w1 = downloaded w @ [chunk]) \<or>
          downloaded w1 = downloaded w @ [chunk, dfu_xbuf @ crc_bytes (fold crc32_step dfu_xbuf (fold crc32_step chunk h1))]"
      by blast
    then show ?thesis
    proof cases
      case failed
      then show ?thesis using res pc by (auto simp add: prefix_def)
    next
      case sent
      have r2: "res = packet_done False (fold crc32_step dfu_xbuf (fold crc32_step chunk h1), count + size0,
                         16, ret, IRECOVERY_E_SUCCESS, c1, w1)"
        using res sent(1) by simp
      show ?thesis
        using packet_done_dfu[OF r2[symmetric]] sent(2) split(1) pc
        by (auto simp add: prefix_def)
    qed
  qed
qed


lemma send_packets_done:
  "\<not> i < packets \<Longrightarrow> send_packets rm ps packets last_size buf i st = Inr st"
  by (subst send_packets.simps) simp

lemma send_packets_step:
  "i < packets \<Longrightarrow> send_packets rm ps packets last_size buf i st =
     (case send_packet rm ps packets last_size buf i st of
        Inl r \<Rightarrow> Inl r
      | Inr st1 \<Rightarrow> send_packets rm ps packets last_size buf (i + 1) st1)"
  by (subst send_packets.simps) simp

lemma prefix_concat: "prefix cs ds \<Longrightarrow> prefix (concat cs) (concat ds)"
  by (auto simp add: prefix_def)

lemma send_packets_dfu:
  assumes "0 < ps" and "ps \<le> 2048" and "0 < last_size" and "last_size \<le> ps"
    and "length buf = (packets - 1) * ps + last_size"
    and "packets - i = Suc n"
    and "send_packets False ps packets last_size buf i (h1, count, bytes, c, w) = res"
  shows "(\<exists>r c' w' cs. res = Inl (r, c', w') \<and> r \<noteq> 0 \<and> downloaded w' = downloaded w @ cs
            \<and> prefix (concat cs)
                 (drop (i * ps) buf @ dfu_xbuf @
                  crc_bytes (fold crc32_step dfu_xbuf (fold crc32_step (drop (i * ps) buf) h1))))
       \<or> (\<exists>h1' count' bytes' c' w' cs. res = Inr (h1', count', bytes', c', w')
            \<and> downloaded w' = downloaded w @ cs
            \<and> concat cs = drop (i * ps) buf @ dfu_xbuf @
                 crc_bytes (fold crc32_step dfu_xbuf (fold crc32_step (drop (i * ps) buf) h1)))"
  using assms(6,7)
proof (induction n arbitrary: i h1 count bytes c w)
  case 0
  then have last: "i + 1 = packets" by simp
  define sp where "sp = send_packet False ps packets last_size buf i (h1, count, bytes, c, w)"
  have len: "length (drop (i * ps) buf) = last_size"
    using assms(5) last by auto
  have chunk: "drop (i * ps) buf = take (if i + 1 < packets then ps else last_size) (drop (i * ps) buf)"
    using len last by simp
  have res: "res = (case sp of Inl r \<Rightarrow> Inl r | Inr st1 \<Rightarrow> Inr st1)"
    using "0.prems"(2) last
    by (auto simp add: send_packets_step send_packets_done sp_def split: sum.splits)
  have ne: "drop (i * ps) buf \<noteq> []" using len assms(3) by auto
  have l2: "length (drop (i * ps) buf) = (if i + 1 < packets then ps else last_size)"
    using len last by simp
  have cc: "concat (packet_chunks ps packets i (drop (i * ps) buf) h1) =
      drop (i * ps) buf @ dfu_xbuf @
        crc_bytes (fold crc32_step dfu_xbuf (fold crc32_step (drop (i * ps) buf) h1))"
    using last by (simp add: packet_chunks_def)
  have "i < packets" using last by simp
  from send_packet_dfu[OF sp_def[symmetric] chunk l2 ne assms(2) assms(4) this]
  show ?case
  proof (elim disjE exE conjE)
    fix r c' w' cs
    assume a: "sp = Inl (r, c', w')" "r \<noteq> 0" "downloaded w' = downloaded w @ cs"
      "prefix cs (packet_chunks ps packets i (drop (i * ps) buf) h1)"
    have "prefix (concat cs) (concat (packet_chunks ps packets i (drop (i * ps) buf) h1))"
      by (rule prefix_concat[OF a(4)])
    then show ?thesis using a res cc by auto
  next
    fix count' bytes' c' w'
    assume a: "sp = Inr (if i + 1 = packets
                 then fold crc32_step dfu_xbuf (fold crc32_step (drop (i * ps) buf) h1)
                 else fold crc32_step (drop (i * ps) buf) h1, count', bytes', c', w')"
      "downloaded w' = downloaded w @ packet_chunks ps packets i (drop (i * ps) buf) h1"
    then show ?thesis using res cc by auto
  qed
next
  case (Suc n)
  then have more: "i + 1 < packets" and next_n: "packets - (i + 1) = Suc n" by simp_all
  define sp where "sp = send_packet False ps packets last_size buf i (h1, count, bytes, c, w)"
  define D where "D = drop (i * ps) buf"
  have "(i + 1) * ps \<le> (packets - 1) * ps"
    using more by (intro mult_le_mono1) simp
  then have lenD: "ps \<le> length D"
    using assms(5) by (simp add: D_def)
  have chunk: "take ps D = take (if i + 1 < packets then ps else last_size) (drop (i * ps) buf)"
    using more by (simp add: D_def)
  have l2: "length (take ps D) = (if i + 1 < packets then ps else last_size)"
    using more lenD by simp
  have ne: "take ps D \<noteq> []" using lenD assms(1) by auto
  have pc: "packet_chunks ps packets i (take ps D) h1 = [take ps D]"
    using more by (simp add: packet_chunks_def)
  have "drop ((i + 1) * ps) buf = drop ps D"
    by (simp add: D_def add.commute)
  then have Dsplit: "D = take ps D @ drop ((i + 1) * ps) buf"
    by (simp only: append_take_drop_id)
  have res: "res = (case sp of Inl r \<Rightarrow> Inl r
                | Inr st1 \<Rightarrow> send_packets False ps packets last_size buf (i + 1) st1)"
    using Suc.prems(2) more
    by (simp add: send_packets_step sp_def)
  have "i < packets" using more by simp
  from send_packet_dfu[OF sp_def[symmetric] chunk l2 ne assms(2) assms(4) this]
  show ?case
  proof (elim disjE exE conjE)
    fix r c' w' cs
    assume a: "sp = Inl (r, c', w')" "r \<noteq> 0" "downloaded w' = downloaded w @ cs"
      "prefix cs (packet_chunks ps packets i (take ps D) h1)"
    have "prefix (concat cs) (take ps D)"
      using prefix_concat[OF a(4)] pc by simp
    then have "prefix (concat cs)
        (D @ dfu_xbuf @ crc_bytes (fold crc32_step dfu_xbuf (fold crc32_step D h1)))"
      by (metis Dsplit append.assoc prefix_prefix)
    then show ?thesis using a res by (auto simp add: D_def)
  next
    fix count' bytes' c' w'
    assume a: "sp = Inr (if i + 1 = packets
                 then fold crc32_step dfu_xbuf (fold crc32_step (take ps D) h1)
                 else fold crc32_step (take ps D) h1, count', bytes', c', w')"
      "downloaded w' = downloaded w @ packet_chunks ps packets i (take ps D) h1"
    have r2: "send_packets False ps packets last_size buf (i + 1)
                (fold crc32_step (take ps D) h1, count', bytes', c', w') = res"
      using res a(1) more by simp
    have fd: "fold crc32_step (drop ((i + 1) * ps) buf) (fold crc32_step (take ps D) h1)
               = fold crc32_step D h1"
      by (subst (2) Dsplit) simp
    have full: "take ps D @ drop ((i + 1) * ps) buf @ rest = D @ rest" for rest
      using Dsplit by (metis append.assoc)
    from Suc.IH[OF next_n r2]
    show ?thesis
    proof (elim disjE exE conjE)
      fix r c'' w'' cs
      assume b: "res = Inl (r, c'', w'')" "r \<noteq> 0" "downloaded w'' = downloaded w' @ cs"
        "prefix (concat cs) (drop ((i + 1) * ps) buf @ dfu_xbuf @
           crc_bytes (fold crc32_step dfu_xbuf
             (fold crc32_step (drop ((i + 1) * ps) buf) (fold crc32_step (take ps D) h1))))"
      have "prefix (concat ([take ps D] @ cs))
              (D @ dfu_xbuf @ crc_bytes (fold crc32_step dfu_xbuf (fold crc32_step D h1)))"
        using b(4) unfolding fd by (simp add: full[symmetric])
      then show ?thesis using b a(2) pc unfolding D_def
        by (intro disjI1 exI[of _ r] exI[of _ c''] exI[of _ w''] exI[of _ "[take ps (drop (i * ps) buf)] @ cs"]) simp
    next
      fix h1' count'' bytes'' c'' w'' cs
      assume b: "res = Inr (h1', count'', bytes'', c'', w'')" "downloaded w'' = downloaded w' @ cs"
        "concat cs = drop ((i + 1) * ps) buf @ dfu_xbuf @
           crc_bytes (fold crc32_step dfu_xbuf
             (fold crc32_step (drop ((i + 1) * ps) buf) (fold crc32_step (take ps D) h1)))"
      have "concat ([take ps D] @ cs)
              = D @ dfu_xbuf @ crc_bytes (fold crc32_step dfu_xbuf (fold crc32_step D h1))"
        using b(3) unfolding fd by (simp add: full[symmetric])
      then show ?thesis using b a(2) pc unfolding D_def
        by (intro disjI2 exI[of _ h1'] exI[of _ count''] exI[of _ bytes''] exI[of _ c''] exI[of _ w'']
              exI[of _ "[take ps (drop (i * ps) buf)] @ cs"]) simp
    qed
  qed
qed


lemma send_buffer_dfu_cases:
  assumes he: "usb_HandleEvents client w = (client1, w1)"
    and md: "mode client1 = IRECOVERY_K_DFU_MODE \<or> mode client1 = IRECOVERY_K_WTF_MODE"
    and sb: "irecovery_send_buffer client w (Some buf) options = (ret, client', w')"
    and P: "P = (if length buf mod 0x800 \<noteq> 0 then length buf div 0x800 + 1 else length buf div 0x800)"
    and Lst: "Lst = (if length buf mod 0x800 \<noteq> 0 then length buf mod 0x800 else 0x800)"
  shows "(ret \<noteq> 0 \<and> downloaded w' = downloaded w)
       \<or> (\<exists>c2 w2. downloaded w2 = downloaded w \<and>
            (send_packets False 0x800 P Lst buf 0 (0xFFFFFFFF, 0, 0, c2, w2) = Inl (ret, client', w')
             \<or> (\<exists>h1 count bytes c3 w3.
                   send_packets False 0x800 P Lst buf 0 (0xFFFFFFFF, 0, 0, c2, w2)
                     = Inr (h1, count, bytes, c3, w3)
                   \<and> downloaded w' = downloaded w3)))"
proof -
  note d1 = downloaded_HandleEvents[OF he]
  have us: "irecovery_client_is_usable client w True = (usable_now client1 w1, client1, w1)"
    by (simp add: irecovery_client_is_usable_def he)
  show ?thesis
  proof (cases "usable_now client1 w1")
    case False
    then show ?thesis using sb us d1 by (simp add: irecovery_send_buffer_def)
  next
    case True
    obtain e c2 w2 where di: "dfu_initiate client1 w1 = (e, c2, w2)"
      by (cases "dfu_initiate client1 w1") auto
    note d2 = downloaded_dfu_initiate[OF di]
    define sp where "sp = send_packets False 0x800 P Lst buf 0 (0xFFFFFFFF, 0, 0, c2, w2)"
    have rm: "(mode client1 \<noteq> IRECOVERY_K_DFU_MODE \<and> mode client1 \<noteq> IRECOVERY_K_WTF_MODE) = False"
      using md by auto
    show ?thesis
    proof (cases "e = 0")
      case False
      then have "(ret, client', w') = (e, c2, w2)"
        using sb us True di by (simp add: irecovery_send_buffer_def Let_def rm)
      then show ?thesis using False d1 d2 by simp
    next
      case e0: True
      show ?thesis
      proof (cases sp)
        case (Inl r)
        then have "(ret, client', w') = r"
          using sb us True di e0 P Lst
          by (simp add: irecovery_send_buffer_def Let_def sp_def rm cong: if_cong)
        then show ?thesis using Inl d1 d2 unfolding sp_def by auto
      next
        case (Inr st)
        obtain h1 count bytes c3 w3 where st: "st = (h1, count, bytes, c3, w3)"
          by (cases st) auto
        obtain r5 d5 c5 w5 where
          ct: "irecovery_usb_control_transfer c3 w3 0x21 1 (of_nat P) 0 buf 0 = (r5, d5, c5, w5)"
          by (cases "irecovery_usb_control_transfer c3 w3 0x21 1 (of_nat P) 0 buf 0") auto
        obtain e6 s6 c6 w6 where g1: "irecovery_get_status c5 w5 = (e6, s6, c6, w6)"
          by (cases "irecovery_get_status c5 w5") auto
        obtain e7 s7 c7 w7 where g2: "irecovery_get_status c6 w6 = (e7, s7, c7, w7)"
          by (cases "irecovery_get_status c6 w6") auto
        obtain r8 d8 c8 w8 where
          cz: "irecovery_usb_control_transfer c7 w7 0x21 0 0 0 [] 0 = (r8, d8, c8, w8)"
          by (cases "irecovery_usb_control_transfer c7 w7 0x21 0 0 0 [] 0") auto
        obtain rr w9 where rs: "usb_backend (ResetDevice (handle c8)) w8 = (rr, w9)"
          by (cases "usb_backend (ResetDevice (handle c8)) w8") auto
        obtain rr' w9' where rs': "usb_backend (ResetDevice (handle c7)) w7 = (rr', w9')"
          by (cases "usb_backend (ResetDevice (handle c7)) w7") auto
        have dl: "downloaded w5 = downloaded w3" "downloaded w6 = downloaded w5"
          "downloaded w7 = downloaded w6" "downloaded w8 = downloaded w7"
          "downloaded w9 = downloaded w8" "downloaded w9' = downloaded w7"
          using downloaded_control_other[OF ct] downloaded_get_status[OF g1]
            downloaded_get_status[OF g2] downloaded_control_other[OF cz]
            downloaded_backend[OF rs] downloaded_backend[OF rs']
          by simp_all
        have "downloaded w' = downloaded w3"
          using sb us True di e0 P Lst Inr st ct g1 g2 cz rs rs' dl
          by (auto simp add: irecovery_send_buffer_def Let_def sp_def rm split: if_splits cong: if_cong)
        then show ?thesis using Inr st d1 d2 unfolding sp_def
          by (intro disjI2 exI[of _ c2] exI[of _ w2]) simp
      qed
    qed
  qed
qed


lemma dfu_layout:
  fixes L :: nat
  assumes "0 < L"
    and "P = (if L mod 0x800 \<noteq> 0 then L div 0x800 + 1 else L div 0x800)"
    and "Lst = (if L mod 0x800 \<noteq> 0 then L mod 0x800 else 0x800)"
  shows "0 < Lst" and "Lst \<le> 2048" and "L = (P - 1) * 2048 + Lst" and "0 < P"
proof -
  have dm: "L = L div 2048 * 2048 + L mod 2048" by simp
  show "0 < Lst" using assms by auto
  show "Lst \<le> 2048" using assms by auto
  show "0 < P" using assms by (auto simp add: div_greater_zero_iff dvd_imp_le mod_eq_0_iff_dvd)
  show "L = (P - 1) * 2048 + Lst"
  proof (cases "L mod 2048 = 0")
    case True
    then have "L div 2048 > 0" using assms(1) by (auto simp add: div_greater_zero_iff dvd_imp_le mod_eq_0_iff_dvd)
    then have "(L div 2048 - 1) * 2048 + 2048 = L div 2048 * 2048"
      by (cases "L div 2048") simp_all
    then show ?thesis using True assms dm by simp
  next
    case False
    then show ?thesis using assms dm by simp
  qed
qed


section \<open>The CRC trailer of a DFU upload (C1)\<close>

text \<open>
  C1, as amended. For every payload of length \<open>L > 0\<close> (below \<open>2^24\<close>) uploaded with
  \<open>irecovery_send_buffer\<close> while the mode that the call reads is DFU or WTF, whatever the
  device answers and whichever events arrive: the data of the download requests made during
  the call, put together, is a prefix of the payload followed by the 12 bytes
  \<open>FF FF FF FF AC 05 00 01 55 46 44 10\<close> and the 4 bytes, low byte first, of the CRC-32 with
  reversed polynomial \<open>0xEDB88320\<close>, initial value \<open>0xFFFFFFFF\<close> and no final XOR, computed
  over the payload followed by those 12 bytes; and it is all of that when the call returns
  success. (The claim names the polynomial \<open>0xEDB88820\<close>; the table of the source is the
  one of \<open>0xEDB88320\<close>.)
\<close>

theorem dfu_upload_crc_trailer:
  assumes "usb_HandleEvents client w = (client1, w1)"
    and "mode client1 = IRECOVERY_K_DFU_MODE \<or> mode client1 = IRECOVERY_K_WTF_MODE"
    and "buf \<noteq> []" and "length buf < 2 ^ 24"
    and "irecovery_send_buffer client w (Some buf) options = (ret, client', w')"
  shows "\<exists>cs. downloaded w' = downloaded w @ cs
           \<and> prefix (concat cs) (buf @ dfu_xbuf @ crc_bytes (crc32_ref 0xEDB88320 (buf @ dfu_xbuf)))
           \<and> (ret = IRECOVERY_E_SUCCESS \<longrightarrow>
                concat cs = buf @ dfu_xbuf @ crc_bytes (crc32_ref 0xEDB88320 (buf @ dfu_xbuf)))"
proof -
  define P where "P = (if length buf mod 0x800 \<noteq> 0 then length buf div 0x800 + 1 else length buf div 0x800)"
  define Lst where "Lst = (if length buf mod 0x800 \<noteq> 0 then length buf mod 0x800 else 0x800)"
  define T where "T = buf @ dfu_xbuf @ crc_bytes (crc32_ref 0xEDB88320 (buf @ dfu_xbuf))"
  have L: "0 < length buf" using assms(3) by simp
  note lay = dfu_layout[OF L P_def Lst_def]
  have crc: "crc32_ref 0xEDB88320 (buf @ dfu_xbuf)
               = fold crc32_step dfu_xbuf (fold crc32_step (drop (0 * 2048) buf) 0xFFFFFFFF)"
    by (simp add: crc32_ref_def fold_crc32_step_ref)
  have n: "P - 0 = Suc (P - 1)" using lay(4) by simp
  have loop: "(\<exists>r c' w' cs. res = Inl (r, c', w') \<and> r \<noteq> 0 \<and> downloaded w' = downloaded w2 @ cs
                 \<and> prefix (concat cs) T)
            \<or> (\<exists>h1' count' bytes' c' w' cs. res = Inr (h1', count', bytes', c', w')
                 \<and> downloaded w' = downloaded w2 @ cs \<and> concat cs = T)"
    if "send_packets False 0x800 P Lst buf 0 (0xFFFFFFFF, 0, 0, c2, w2) = res" for c2 w2 res
    using send_packets_dfu[OF _ _ lay(1) lay(2) lay(3) n that] unfolding T_def crc by simp
  from send_buffer_dfu_cases[OF assms(1,2,5) P_def Lst_def]
  show ?thesis
  proof (elim disjE exE conjE)
    assume "ret \<noteq> 0" "downloaded w' = downloaded w"
    then show ?thesis by (intro exI[of _ "[]"]) simp
  next
    fix c2 w2
    assume a: "downloaded w2 = downloaded w"
      "send_packets False 0x800 P Lst buf 0 (0xFFFFFFFF, 0, 0, c2, w2) = Inl (ret, client', w')"
    from loop[OF a(2)] obtain cs where "ret \<noteq> 0" "downloaded w' = downloaded w2 @ cs" "prefix (concat cs) T"
      by auto
    then show ?thesis using a(1) unfolding T_def by (intro exI[of _ cs]) simp
  next
    fix c2 w2 h1 count bytes c3 w3
    assume a: "downloaded w2 = downloaded w"
      "send_packets False 0x800 P Lst buf 0 (0xFFFFFFFF, 0, 0, c2, w2) = Inr (h1, count, bytes, c3, w3)"
      "downloaded w' = downloaded w3"
    from loop[OF a(2)] obtain cs where "downloaded w3 = downloaded w2 @ cs" "concat cs = T"
      by auto
    then show ?thesis using a(1,3) unfolding T_def by (intro exI[of _ cs]) simp
  qed
qed


theorem dfu_upload_crc_trailer_witness:
  "fst (irecovery_send_buffer (attached_client IRECOVERY_K_DFU_MODE None)
          (host_world [] [dfu_idle, Usb_Result 0 17 [], dfu_status_ok]) (Some [0]) 0) = IRECOVERY_E_SUCCESS
   \<and> (\<exists>cs. downloaded (snd (snd (irecovery_send_buffer (attached_client IRECOVERY_K_DFU_MODE None)
                 (host_world [] [dfu_idle, Usb_Result 0 17 [], dfu_status_ok]) (Some [0]) 0)))
              = downloaded (host_world [] [dfu_idle, Usb_Result 0 17 [], dfu_status_ok]) @ cs
         \<and> concat cs = [0] @ dfu_xbuf @ crc_bytes (crc32_ref 0xEDB88320 ([0] @ dfu_xbuf)))"
proof -
  let ?c = "attached_client IRECOVERY_K_DFU_MODE None"
  let ?w = "host_world [] [dfu_idle, Usb_Result 0 17 [], dfu_status_ok]"
  obtain ret c' w' where r: "irecovery_send_buffer ?c ?w (Some [0]) 0 = (ret, c', w')"
    by (cases "irecovery_send_buffer ?c ?w (Some [0]) 0") auto
  have ok: "fst (irecovery_send_buffer ?c ?w (Some [0]) 0) = IRECOVERY_E_SUCCESS"
    by (simp add: upload_eval)
  have he: "usb_HandleEvents ?c ?w = (?c, ?w)"
    by (simp add: usb_HandleEvents_def host_world_def)
  have md: "mode ?c = IRECOVERY_K_DFU_MODE \<or> mode ?c = IRECOVERY_K_WTF_MODE"
    by (simp add: attached_client_def)
  show ?thesis
    using dfu_upload_crc_trailer[OF he md _ _ r] ok unfolding r by auto
qed


text \<open>
  The claim as stated, with polynomial \<open>0xEDB88820\<close>, fails for the one-byte payload \<open>00\<close>:
  the trailer that is sent ends in \<open>BE E0 7D E7\<close>, and the CRC-32 of polynomial \<open>0xEDB88820\<close>
  over the same 13 bytes is \<open>EA 7E 02 FB\<close> in little-endian order.
\<close>

theorem crc_polynomial_counterexample:
  "(case irecovery_send_buffer (attached_client IRECOVERY_K_DFU_MODE None)
           (host_world [] [dfu_idle, Usb_Result 0 17 [], dfu_status_ok]) (Some [0]) 0 of
      (ret, client', w') \<Rightarrow>
        ret = IRECOVERY_E_SUCCESS
        \<and> downloaded w' = [[0] @ dfu_xbuf @ [0xBE, 0xE0, 0x7D, 0xE7]])
   \<and> crc_bytes (crc32_ref 0xEDB88820 ([0] @ dfu_xbuf)) = [0xEA, 0x7E, 0x02, 0xFB]"
proof -
  have a: "crc_bytes (fold crc32_step dfu_xbuf (crc32_step 0 0xFFFFFFFF)) = [0xBE, 0xE0, 0x7D, 0xE7]"
    by (simp add: crc_eval)
  have b: "crc_bytes (crc32_ref 0xEDB88820 ([0] @ dfu_xbuf)) = [0xEA, 0x7E, 0x02, 0xFB]"
    by (simp add: crc_eval)
  show ?thesis
    using b by (simp add: upload_eval downloaded_def a)
qed


section \<open>A DFU upload shorter than one packet (C6)\<close>

text \<open>
  C6, as amended. For every DFU- or WTF-mode upload of a payload of length \<open>L\<close> with
  \<open>0 < L < 0x800\<close> that returns success: when \<open>L + 16 \<le> 0x800\<close> exactly one download
  request with data is made, and it carries the payload with the 16-byte CRC trailer
  appended; when \<open>L + 16 > 0x800\<close> (that is \<open>0x7F0 < L < 0x800\<close>) exactly two are made, the
  payload alone and then the 16-byte trailer alone.
\<close>

theorem dfu_small_upload_chunks:
  assumes "usb_HandleEvents client w = (client1, w1)"
    and "mode client1 = IRECOVERY_K_DFU_MODE \<or> mode client1 = IRECOVERY_K_WTF_MODE"
    and "0 < length buf" and "length buf < 0x800"
    and "irecovery_send_buffer client w (Some buf) options = (IRECOVERY_E_SUCCESS, client', w')"
  shows "downloaded w' = downloaded w @
           (if length buf + 16 \<le> 0x800
            then [buf @ dfu_xbuf @ crc_bytes (fold crc32_step (buf @ dfu_xbuf) 0xFFFFFFFF)]
            else [buf, dfu_xbuf @ crc_bytes (fold crc32_step (buf @ dfu_xbuf) 0xFFFFFFFF)])"
proof -
  have P: "1 = (if length buf mod 0x800 \<noteq> 0 then length buf div 0x800 + 1 else length buf div 0x800)"
    and Lst: "length buf = (if length buf mod 0x800 \<noteq> 0 then length buf mod 0x800 else 0x800)"
    using assms(3,4) by simp_all
  have pc: "packet_chunks 2048 1 0 buf 0xFFFFFFFF =
           (if length buf + 16 \<le> 0x800
            then [buf @ dfu_xbuf @ crc_bytes (fold crc32_step (buf @ dfu_xbuf) 0xFFFFFFFF)]
            else [buf, dfu_xbuf @ crc_bytes (fold crc32_step (buf @ dfu_xbuf) 0xFFFFFFFF)])"
    by (simp add: packet_chunks_def)
  have one: "(\<exists>r c' w'. res = Inl (r, c', w') \<and> r \<noteq> 0)
            \<or> (\<exists>h1' count' bytes' c' w'. res = Inr (h1', count', bytes', c', w')
                 \<and> downloaded w' = downloaded w2 @ packet_chunks 2048 1 0 buf 0xFFFFFFFF)"
    if "send_packets False 0x800 1 (length buf) buf 0 (0xFFFFFFFF, 0, 0, c2, w2) = res" for c2 w2 res
  proof -
    define sp where "sp = send_packet False 0x800 1 (length buf) buf 0 (0xFFFFFFFF, 0, 0, c2, w2)"
    have res: "res = (case sp of Inl r \<Rightarrow> Inl r | Inr st1 \<Rightarrow> Inr st1)"
      using that by (auto simp add: send_packets_step send_packets_done sp_def split: sum.splits)
    have ne: "buf \<noteq> []" using assms(3) by auto
    from send_packet_dfu[OF sp_def[symmetric], of buf] ne assms(4)
    show ?thesis unfolding res by auto
  qed
  from send_buffer_dfu_cases[OF assms(1,2,5) P Lst]
  show ?thesis
  proof (elim disjE exE conjE)
    assume "(0::int) \<noteq> 0"
    then show ?thesis by simp
  next
    fix c2 w2
    assume "send_packets False 0x800 1 (length buf) buf 0 (0xFFFFFFFF, 0, 0, c2, w2) = Inl (0, client', w')"
    from one[OF this] show ?thesis by simp
  next
    fix c2 w2 h1 count bytes c3 w3
    assume a: "downloaded w2 = downloaded w"
      "send_packets False 0x800 1 (length buf) buf 0 (0xFFFFFFFF, 0, 0, c2, w2) = Inr (h1, count, bytes, c3, w3)"
      "downloaded w' = downloaded w3"
    from one[OF a(2)] show ?thesis using a(1,3) pc by simp
  qed
qed


theorem dfu_small_upload_chunks_witness:
  "fst (irecovery_send_buffer (attached_client IRECOVERY_K_DFU_MODE None)
          (host_world [] [dfu_idle, Usb_Result 0 17 [], dfu_status_ok]) (Some [0]) 0) = IRECOVERY_E_SUCCESS
   \<and> downloaded (snd (snd (irecovery_send_buffer (attached_client IRECOVERY_K_DFU_MODE None)
                 (host_world [] [dfu_idle, Usb_Result 0 17 [], dfu_status_ok]) (Some [0]) 0)))
        = [[0] @ dfu_xbuf @ crc_bytes (fold crc32_step ([0] @ dfu_xbuf) 0xFFFFFFFF)]"
proof -
  let ?c = "attached_client IRECOVERY_K_DFU_MODE None"
  let ?w = "host_world [] [dfu_idle, Usb_Result 0 17 [], dfu_status_ok]"
  obtain ret c' w' where r: "irecovery_send_buffer ?c ?w (Some [0]) 0 = (ret, c', w')"
    by (cases "irecovery_send_buffer ?c ?w (Some [0]) 0") auto
  have ok: "fst (irecovery_send_buffer ?c ?w (Some [0]) 0) = IRECOVERY_E_SUCCESS"
    by (simp add: upload_eval)
  then have r0: "irecovery_send_buffer ?c ?w (Some [0]) 0 = (IRECOVERY_E_SUCCESS, c', w')"
    using r by simp
  have he: "usb_HandleEvents ?c ?w = (?c, ?w)"
    by (simp add: usb_HandleEvents_def host_world_def)
  have md: "mode ?c = IRECOVERY_K_DFU_MODE \<or> mode ?c = IRECOVERY_K_WTF_MODE"
    by (simp add: attached_client_def)
  have d0: "downloaded ?w = []" by (simp add: downloaded_def host_world_def)
  show ?thesis
    using dfu_small_upload_chunks[OF he md _ _ r0] ok d0 unfolding r0 by simp
qed


text \<open>
  The claim as stated fails for \<open>L = 0x7F1 = 2033\<close>: on a DFU device that is idle and
  accepts every transfer the upload succeeds with two download requests, of 2033 and of 16
  bytes.
\<close>

theorem small_upload_counterexample:
  "(case irecovery_send_buffer (attached_client IRECOVERY_K_DFU_MODE None)
           (host_world [] [dfu_idle, Usb_Result 0 2033 [], Usb_Result 0 16 [], dfu_status_ok])
           (Some (replicate 2033 0)) 0 of
      (ret, client', w') \<Rightarrow>
        ret = IRECOVERY_E_SUCCESS
        \<and> length (downloaded w') = 2
        \<and> map length (downloaded w') = [2033, 16])"
  by (simp add: upload_eval downloaded_def)


section \<open>The progress callback's return value (C7)\<close>

text \<open>
  C7. The claim: when the registered progress callback returns a non-zero value after a
  packet, the upload is aborted and no further packet is sent (irecovery.h: "If your callback
  function returns something other than 0, the associated irecovery API function will exit
  early"). \<open>irecovery_send_buffer\<close> calls the callback and drops what it returns. For a
  DFU upload of 2049 bytes (two packets) with a callback that always returns 1, on a device
  that accepts every transfer: the callback returns 1 after the first packet, the second
  packet with the trailer is sent all the same, and the call returns success.
\<close>

theorem progress_callback_result_ignored: "irecovery_send_buffer (attached_client IRECOVERY_K_DFU_MODE (Some (\<lambda>event. 1)))
     (host_world [] [dfu_idle, Usb_Result 0 2048 [], dfu_status_ok, Usb_Result 0 17 [], dfu_status_ok])
     (Some (replicate 2048 0 @ [1])) 0
   = (IRECOVERY_E_SUCCESS, attached_client IRECOVERY_K_DFU_MODE (Some (\<lambda>event. 1)),
      \<lparr>usb_role = 0, usb_pending = [], usb_results = [], alloc_fails = [],
       usb_trace =
         [ControlTransfer 1 0xA1 5 0 0 1 [],
          ControlTransfer 1 0x21 1 0 0 2048 (replicate 2048 0),
          ControlTransfer 1 0xA1 3 0 0 6 [],
          ProgressCallback \<lparr>ev_size = 2048, ev_data = ''Uploading'', ev_type = 1\<rparr> 1,
          ControlTransfer 1 0x21 1 1 0 17
            ([1] @ dfu_xbuf @ crc_bytes (fold crc32_step (replicate 2048 0 @ [1] @ dfu_xbuf) 0xFFFFFFFF)),
          ControlTransfer 1 0xA1 3 0 0 6 [],
          ProgressCallback \<lparr>ev_size = 2065, ev_data = ''Uploading'', ev_type = 1\<rparr> 1]\<rparr>)"
  by (simp add: upload_eval)


end
